theory Spec2Isabelle
  imports Main
begin

section \<open>Values shared by the utility modules\<close>

text \<open>
  A JavaScript call either returns a value or throws. A thrown value is kept with the
  text that \<^verbatim>\<open>error instanceof Error ? error.message : String(error)\<close> reads
  from it; the browser library's \<^verbatim>\<open>TimeoutError\<close> is kept apart from every
  other error.
\<close>

datatype js_error = Error string | TimeoutError string

fun error_text :: "js_error \<Rightarrow> string" where
  "error_text (Error m) = m"
| "error_text (TimeoutError m) = m"

datatype 'a outcome = Returns 'a | Throws js_error

section \<open>assert-utils.ts: finishing a batch of soft assertions\<close>

text \<open>
  The module is kept in the source file \<^verbatim>\<open>src/utils/action-utils.ts\<close>, after the
  action utilities. \<^verbatim>\<open>testInfo.errors\<close> is the list the test runner appends a
  failed soft expectation to. Only this field of \<^verbatim>\<open>TestInfo\<close> is read by the
  module.
\<close>

record TestInfo =
  errors :: "js_error list"

text \<open>
  What a failed \<^verbatim>\<open>expect(xs).toHaveLength(n)\<close> reports: the expected and the
  received length.
\<close>

datatype expect_failure = LengthMismatch (expected_length: nat) (received_length: nat)

definition toHaveLength :: "'a list \<Rightarrow> nat \<Rightarrow> expect_failure + unit" where
  "toHaveLength received n =
     (if length received = n then Inr () else Inl (LengthMismatch n (length received)))"

text \<open>
  \<^verbatim>\<open>
  export function assertAllSoftAssertions(testInfo: TestInfo) {
    expect(testInfo.errors).toHaveLength(0);
  }
  \<close>
  The expectation is the plain (hard) \<^verbatim>\<open>expect\<close>: its failure is thrown.
\<close>

definition assertAllSoftAssertions :: "TestInfo \<Rightarrow> expect_failure + unit" where
  "assertAllSoftAssertions testInfo = toHaveLength (errors testInfo) 0"

text \<open>
  A soft expectation that fails does not throw: the runner records the failure at the
  end of \<^verbatim>\<open>testInfo.errors\<close> and the test goes on.
\<close>

definition record_soft_failure :: "TestInfo \<Rightarrow> js_error \<Rightarrow> TestInfo" where
  "record_soft_failure testInfo e = testInfo\<lparr>errors := errors testInfo @ [e]\<rparr>"

definition fresh_test :: TestInfo where
  "fresh_test = \<lparr>errors = []\<rparr>"

section \<open>custom-logger.ts: the logger and the reporter\<close>

text \<open>The levels of the logging library, in its order of priority (0 is most severe).\<close>

datatype level = error | warn | info | http | verbose | debug | silly

fun levels :: "level \<Rightarrow> nat" where
  "levels error = 0"
| "levels warn = 1"
| "levels info = 2"
| "levels http = 3"
| "levels verbose = 4"
| "levels debug = 5"
| "levels silly = 6"

fun level_name :: "level \<Rightarrow> string" where
  "level_name error = ''error''"
| "level_name warn = ''warn''"
| "level_name info = ''info''"
| "level_name http = ''http''"
| "level_name verbose = ''verbose''"
| "level_name debug = ''debug''"
| "level_name silly = ''silly''"

text \<open>
  The record that travels through the formats of the logger
  (\<^verbatim>\<open>({ timestamp, level, message })\<close>).
\<close>

record log_info =
  timestamp :: string
  level :: string
  message :: string

text \<open>
  What the logging library supplies: the colouring of a text for a level (the colours
  are set by \<^verbatim>\<open>winston.addColors(customColors)\<close>) and the time stamp read when
  the \<open>n\<close>-th line is formatted.
\<close>

record winston =
  colorize :: "level \<Rightarrow> string \<Rightarrow> string"
  timestamp_at :: "nat \<Rightarrow> string"

text \<open>
  \<^verbatim>\<open>
  winston.format.printf(({ timestamp, level, message }) => {
    return `${timestamp} [${level}]: ${message}`;
  })
  \<close>
\<close>

definition printf_template :: "log_info \<Rightarrow> string" where
  "printf_template i = timestamp i @ '' ['' @ level i @ '']: '' @ message i"

text \<open>
  \<^verbatim>\<open>
  format: winston.format.combine(
    winston.format.colorize({ all: true }),
    winston.format.timestamp(),
    winston.format.printf(...))
  \<close>
  With \<^verbatim>\<open>all: true\<close> the colouring is applied to the level and to the message;
  the time stamp is added next; the template is applied last.
\<close>

definition colorize_all :: "winston \<Rightarrow> level \<Rightarrow> log_info \<Rightarrow> log_info" where
  "colorize_all lib lvl i =
     i\<lparr>level := colorize lib lvl (level i), message := colorize lib lvl (message i)\<rparr>"

definition add_timestamp :: "winston \<Rightarrow> nat \<Rightarrow> log_info \<Rightarrow> log_info" where
  "add_timestamp lib n i = i\<lparr>timestamp := timestamp_at lib n\<rparr>"

definition format_line :: "winston \<Rightarrow> nat \<Rightarrow> level \<Rightarrow> string \<Rightarrow> string" where
  "format_line lib n lvl msg =
     printf_template
       (add_timestamp lib n
         (colorize_all lib lvl \<lparr>timestamp = [], level = level_name lvl, message = msg\<rparr>))"

text \<open>
  The logger is created with \<^verbatim>\<open>level: 'info'\<close>: a call at a level of lower
  priority writes nothing. Both transports (the console and the file
  \<^verbatim>\<open>logs/info.log\<close>) receive the same formatted line, so the output is kept
  once, as the list of the lines written with the level of each.
\<close>

type_synonym log_output = "(level \<times> string) list"

definition logger_log :: "winston \<Rightarrow> level \<Rightarrow> string \<Rightarrow> log_output \<Rightarrow> log_output" where
  "logger_log lib lvl msg out =
     (if levels lvl \<le> levels info then out @ [(lvl, format_line lib (length out) lvl msg)]
      else out)"

definition logger_info :: "winston \<Rightarrow> string \<Rightarrow> log_output \<Rightarrow> log_output" where
  "logger_info lib msg out = logger_log lib info msg out"

definition logger_error :: "winston \<Rightarrow> string \<Rightarrow> log_output \<Rightarrow> log_output" where
  "logger_error lib msg out = logger_log lib error msg out"

text \<open>The parts of the runner's test case and test result that the reporter reads.\<close>

record TestCase =
  title :: string

datatype status = passed | failed | timedOut | skipped | interrupted

record TestResult =
  status :: status
  result_error :: "js_error option"

text \<open>
  \<^verbatim>\<open>
  onTestBegin(test: TestCase): void {
    logger.info(`Starting Test Case: ${test.title}`);
  }
  \<close>
\<close>

definition onTestBegin :: "winston \<Rightarrow> TestCase \<Rightarrow> log_output \<Rightarrow> log_output" where
  "onTestBegin lib test out = logger_info lib (''Starting Test Case: '' @ title test) out"

text \<open>
  \<^verbatim>\<open>
  onTestEnd(test: TestCase, result: TestResult): void {
    if (result.status === 'passed') {
      logger.info(`\x1b[32mTest Case Passed: ${test.title}\x1b[0m`); // Green color
    } else if (result.status === 'skipped') {
      logger.info(`\x1b[33mTest Case Skipped: ${test.title}\x1b[0m`); // Yellow color
    } else if (result.status === 'failed' && result.error) {
      // Playwright's built-in reporter handles the error logging
    }
  }
  \<close>
\<close>

text \<open>The escape character \<^verbatim>\<open>\x1b\<close> is \<open>CHR 0x1B\<close>.\<close>

definition onTestEnd :: "winston \<Rightarrow> TestCase \<Rightarrow> TestResult \<Rightarrow> log_output \<Rightarrow> log_output" where
  "onTestEnd lib test result out =
     (if status result = passed then
        logger_info lib
          (CHR 0x1B # ''[32mTest Case Passed: '' @ title test @ CHR 0x1B # ''[0m'') out
      else if status result = skipped then
        logger_info lib
          (CHR 0x1B # ''[33mTest Case Skipped: '' @ title test @ CHR 0x1B # ''[0m'') out
      else if status result = failed \<and> result_error result \<noteq> None then out
      else out)"

text \<open>
  \<^verbatim>\<open>
  onError(error: TestError): void { logger.error(error.message); }
  \<close>
\<close>

definition onError :: "winston \<Rightarrow> js_error \<Rightarrow> log_output \<Rightarrow> log_output" where
  "onError lib e out = logger_error lib (error_text e) out"

text \<open>A concrete logging library for the examples: it marks a coloured text with the
  level's name and counts the lines for the time stamp.\<close>

definition plain_winston :: winston where
  "plain_winston =
     \<lparr>colorize = (\<lambda>lvl s. ''<'' @ level_name lvl @ ''>'' @ s @ ''</>''),
      timestamp_at = (\<lambda>n. replicate n CHR ''I'' @ ''T'')\<rparr>"

definition checkout_test :: TestCase where
  "checkout_test = \<lparr>title = ''checkout''\<rparr>"

section \<open>The world the utilities run in\<close>

text \<open>
  The state that the utility modules read and change: the current page of
  \<^verbatim>\<open>page-utils\<close>, the counter from which the browser library numbers the objects
  it creates, the wall clock read by \<^verbatim>\<open>Date.now()\<close> (milliseconds), the number
  of state samples (\<^verbatim>\<open>isVisible\<close>, \<^verbatim>\<open>isHidden\<close>) issued so far, the lines
  written by \<^verbatim>\<open>console.log\<close>, and the running test.
\<close>

type_synonym page = nat

record world =
  current_page :: page
  next_ref :: nat
  clock :: int
  polls :: nat
  console :: "string list"
  testInfo :: TestInfo

definition Date_now :: "world \<Rightarrow> int" where
  "Date_now w = clock w"

definition console_log :: "string \<Rightarrow> world \<Rightarrow> world" where
  "console_log line w = w\<lparr>console := console w @ [line]\<rparr>"

text \<open>
  Modelled from the spec: \<^verbatim>\<open>page-utils\<close> (\<^verbatim>\<open>getPage\<close>, \<^verbatim>\<open>setPage\<close>) is
  not among the sources. The spec describes it as the single current-page handle,
  process-wide state set once per test by the before-each hook
  (\<^verbatim>\<open>setPage(page)\<close> in page-setup.ts) and read by every utility.
\<close>

definition getPage :: "world \<Rightarrow> page" where
  "getPage w = current_page w"

definition setPage :: "page \<Rightarrow> world \<Rightarrow> world" where
  "setPage p w = w\<lparr>current_page := p\<rparr>"

text \<open>
  The timeout constants of \<^verbatim>\<open>timeout-constants.ts\<close>, which is not among the
  sources: they are parameters of every function that reads one.
\<close>

record timeouts =
  INSTANT_TIMEOUT :: int
  SMALL_TIMEOUT :: int
  STANDARD_TIMEOUT :: int

text \<open>
  \<^verbatim>\<open>TimeoutOption = { timeout?: number }\<close>, and the click options with the
  \<^verbatim>\<open>loadState\<close> the module adds. An omitted \<^verbatim>\<open>options\<close> argument is
  \<open>None\<close>; \<^verbatim>\<open>{timeout: 0}\<close> is \<open>Some \<lparr>timeout = Some 0\<rparr>\<close>.
\<close>

record TimeoutOption =
  timeout :: "int option"

datatype LoadState = load | domcontentloaded | networkidle

record ClickOptions = TimeoutOption +
  loadState :: "LoadState option"

text \<open>\<^verbatim>\<open>options?.timeout\<close>\<close>

definition opt_timeout :: "('a TimeoutOption_scheme) option \<Rightarrow> int option" where
  "opt_timeout options = (case options of None \<Rightarrow> None | Some opts \<Rightarrow> timeout opts)"

text \<open>\<^verbatim>\<open>options?.loadState\<close>\<close>

definition opt_loadState :: "ClickOptions option \<Rightarrow> LoadState option" where
  "opt_loadState options = (case options of None \<Rightarrow> None | Some opts \<Rightarrow> loadState opts)"

text \<open>
  \<^verbatim>\<open>x || d\<close> on an optional number: \<^verbatim>\<open>undefined\<close> and \<open>0\<close> are falsy
  (so is \<^verbatim>\<open>NaN\<close>, which is not an integer and has no place here).
\<close>

definition or_default :: "int option \<Rightarrow> int \<Rightarrow> int" where
  "or_default x d = (case x of None \<Rightarrow> d | Some n \<Rightarrow> if n = 0 then d else n)"

text \<open>\<^verbatim>\<open>x || d\<close> on an optional load state: every load state is a non-empty string.\<close>

definition or_loadState :: "LoadState option \<Rightarrow> LoadState \<Rightarrow> LoadState" where
  "or_loadState x d = (case x of None \<Rightarrow> d | Some s \<Rightarrow> s)"

text \<open>\<^verbatim>\<open>export const LOADSTATE: WaitForLoadStateOptions = 'domcontentloaded';\<close>\<close>

definition LOADSTATE :: LoadState where
  "LOADSTATE = domcontentloaded"

section \<open>The browser library, as the utilities see it\<close>

text \<open>
  A locator of the browser library: a description of how to find elements (a selector
  with its options on a page, then a chain of \<^verbatim>\<open>nth\<close> picks), held by an object
  with an identity (\<open>ref\<close>). It finds its elements anew whenever it is used.
\<close>

type_synonym LocatorOptions = string

record Locator =
  ref :: nat
  of_page :: page
  selector :: string
  locator_options :: "LocatorOptions option"
  picks :: "nat list"

type_synonym node = nat

text \<open>An awaited call settles after some milliseconds, by returning or by throwing.\<close>

type_synonym 'a awaited = "nat \<times> 'a outcome"

datatype waitFor_state = attached | detached | visible | hidden

text \<open>
  What the browser does, a parameter of everything below: the nodes of each page's
  document in document order, which nodes a selector matches, and how each call of the
  library that the utilities make settles, as a function of the arguments the call
  receives. The state samples \<^verbatim>\<open>isVisible\<close> and \<^verbatim>\<open>isHidden\<close> are taken
  repeatedly, so they also depend on the number of the sample. \<open>timer_late\<close> is the
  time by which \<^verbatim>\<open>setTimeout\<close> fires after its delay has passed.
  \<open>locator_count_error\<close> is the error with which counting the elements of a locator
  fails, if it does: a locator is made lazily, so a selector that the library cannot
  parse (\<^verbatim>\<open>'li['\<close>) is refused only when the locator is used.
\<close>

record browser =
  document :: "page \<Rightarrow> node list"
  matches :: "string \<Rightarrow> LocatorOptions option \<Rightarrow> node \<Rightarrow> bool"
  locator_isVisible :: "Locator \<Rightarrow> TimeoutOption option \<Rightarrow> nat \<Rightarrow> bool awaited"
  locator_isHidden :: "Locator \<Rightarrow> TimeoutOption option \<Rightarrow> nat \<Rightarrow> bool awaited"
  locator_isChecked :: "Locator \<Rightarrow> TimeoutOption option \<Rightarrow> bool awaited"
  locator_waitFor :: "Locator \<Rightarrow> waitFor_state \<Rightarrow> int \<Rightarrow> unit awaited"
  locator_click :: "Locator \<Rightarrow> ClickOptions option \<Rightarrow> unit awaited"
  page_waitForEvent :: "page \<Rightarrow> string \<Rightarrow> int \<Rightarrow> unit awaited"
  page_waitForLoadState :: "page \<Rightarrow> LoadState \<Rightarrow> int \<Rightarrow> unit awaited"
  timer_late :: "nat \<Rightarrow> nat"
  locator_count_error :: "Locator \<Rightarrow> js_error option"

text \<open>\<^verbatim>\<open>await p\<close>: the clock moves on by the time the call takes to settle.\<close>

definition await :: "'a awaited \<Rightarrow> world \<Rightarrow> 'a outcome \<times> world" where
  "await p w = (snd p, w\<lparr>clock := clock w + int (fst p)\<rparr>)"

text \<open>Awaiting a state sample also counts it.\<close>

definition await_sample :: "bool awaited \<Rightarrow> world \<Rightarrow> bool outcome \<times> world" where
  "await_sample p w = (snd p, w\<lparr>clock := clock w + int (fst p), polls := Suc (polls w)\<rparr>)"

text \<open>
  \<^verbatim>\<open>await new Promise(resolve => setTimeout(resolve, ms))\<close>: the timer fires no
  earlier than its delay.
\<close>

definition sleep :: "browser \<Rightarrow> nat \<Rightarrow> world \<Rightarrow> world" where
  "sleep b ms w = w\<lparr>clock := clock w + int ms + int (timer_late b (polls w))\<rparr>"

text \<open>
  \<^verbatim>\<open>Promise.all([p, q])\<close> fulfils when both have fulfilled and rejects as soon as
  one rejects, with that one's error (the first of the array when both reject at the
  same millisecond).
\<close>

fun Promise_all :: "unit awaited \<Rightarrow> unit awaited \<Rightarrow> unit awaited" where
  "Promise_all (t1, Returns _) (t2, Returns _) = (max t1 t2, Returns ())"
| "Promise_all (t1, Throws e1) (t2, Returns _) = (t1, Throws e1)"
| "Promise_all (t1, Returns _) (t2, Throws e2) = (t2, Throws e2)"
| "Promise_all (t1, Throws e1) (t2, Throws e2) =
     (if t1 \<le> t2 then (t1, Throws e1) else (t2, Throws e2))"

text \<open>
  \<^verbatim>\<open>page.locator(selector, options)\<close> creates a new locator object for the page.
\<close>

definition page_locator ::
  "page \<Rightarrow> string \<Rightarrow> LocatorOptions option \<Rightarrow> world \<Rightarrow> Locator \<times> world" where
  "page_locator p s opts w =
     (\<lparr>ref = next_ref w, of_page = p, selector = s, locator_options = opts, picks = []\<rparr>,
      w\<lparr>next_ref := Suc (next_ref w)\<rparr>)"

text \<open>The nodes a locator finds at present, in document order.\<close>

definition pick :: "node list \<Rightarrow> nat \<Rightarrow> node list" where
  "pick ns i = (if i < length ns then [ns ! i] else [])"

definition resolve :: "browser \<Rightarrow> Locator \<Rightarrow> node list" where
  "resolve b l =
     foldl pick (filter (matches b (selector l) (locator_options l)) (document b (of_page l))) (picks l)"

definition locator_count :: "browser \<Rightarrow> Locator \<Rightarrow> nat" where
  "locator_count b l = length (resolve b l)"

text \<open>\<^verbatim>\<open>locator.nth(i)\<close>, as the object numbered \<open>r\<close>.\<close>

definition locator_nth :: "Locator \<Rightarrow> nat \<Rightarrow> nat \<Rightarrow> Locator" where
  "locator_nth l i r = l\<lparr>ref := r, picks := picks l @ [i]\<rparr>"

text \<open>
  \<^verbatim>\<open>locator.all()\<close> of the library: it counts the elements found and returns
  \<^verbatim>\<open>locator.nth(i)\<close> for each index below the count. When the count fails, so
  does \<^verbatim>\<open>all()\<close>, with the same error and without making any locator.
\<close>

definition locator_all :: "browser \<Rightarrow> Locator \<Rightarrow> world \<Rightarrow> Locator list outcome \<times> world" where
  "locator_all b l w =
     (case locator_count_error b l of
        Some e \<Rightarrow> (Throws e, w)
      | None \<Rightarrow>
          (Returns (map (\<lambda>i. locator_nth l i (next_ref w + i)) [0..<locator_count b l]),
           w\<lparr>next_ref := next_ref w + locator_count b l\<rparr>))"

section \<open>locator-utils.ts\<close>

text \<open>\<^verbatim>\<open>input: string | Locator\<close>\<close>

datatype locator_input = Selector string | Handle Locator

text \<open>
  \<^verbatim>\<open>
  export function getLocator(input: string | Locator, options?: LocatorOptions): Locator {
    return typeof input === 'string' ? getPage().locator(input, options) : input;
  }
  \<close>
\<close>

definition getLocator ::
  "locator_input \<Rightarrow> LocatorOptions option \<Rightarrow> world \<Rightarrow> Locator \<times> world" where
  "getLocator input opts w =
     (case input of
        Selector s \<Rightarrow> page_locator (getPage w) s opts w
      | Handle l \<Rightarrow> (l, w))"

text \<open>
  \<^verbatim>\<open>
  export async function getAllLocators(input: string | Locator, options?: LocatorOptions) {
    return typeof input === 'string' ? await getPage().locator(input, options).all()
                                     : await input.all();
  }
  \<close>
\<close>

definition getAllLocators ::
  "browser \<Rightarrow> locator_input \<Rightarrow> LocatorOptions option \<Rightarrow> world \<Rightarrow> Locator list outcome \<times> world"
  where
  "getAllLocators b input opts w =
     (case input of
        Selector s \<Rightarrow> (let (l, w1) = page_locator (getPage w) s opts w in locator_all b l w1)
      | Handle l \<Rightarrow> locator_all b l w)"

section \<open>element-utils.ts\<close>

text \<open>
  How a block of statements completes: it runs to its end, it returns a value from the
  function, or it throws.
\<close>

datatype 'a completion = Normal | Return 'a | Throw js_error

text \<open>
  The loop of the two pollers, for the state sample \<open>sample\<close>
  (\<^verbatim>\<open>locator.isVisible(options)\<close> or \<^verbatim>\<open>locator.isHidden(options)\<close>):
  \<^verbatim>\<open>
  while (Date.now() - startTime < timeoutInMs) {
    if (await locator.isVisible(options)) {
      return true;
    }
    await new Promise(resolve => setTimeout(resolve, 100));
  }
  \<close>
  The loop ends: every round that goes on has slept for at least 100 ms.
\<close>

function poll_loop ::
  "browser \<Rightarrow> (nat \<Rightarrow> bool awaited) \<Rightarrow> int \<Rightarrow> int \<Rightarrow> world \<Rightarrow> bool completion \<times> world"
  where
  "poll_loop b sample timeoutInMs startTime w =
     (if Date_now w - startTime < timeoutInMs then
        (case await_sample (sample (polls w)) w of
           (Throws e, w1) \<Rightarrow> (Throw e, w1)
         | (Returns v, w1) \<Rightarrow>
             if v then (Return True, w1)
             else poll_loop b sample timeoutInMs startTime (sleep b 100 w1))
      else (Normal, w))"
  by pat_completeness auto
termination
  by (relation "measure (\<lambda>(b, sample, timeoutInMs, startTime, w).
        nat (timeoutInMs - (clock w - startTime)))")
     (auto simp: Date_now_def await_sample_def sleep_def)

text \<open>
  \<^verbatim>\<open>
  export async function isElementVisible(input, options?: TimeoutOption): Promise<boolean> {
    const locator = getLocator(input);
    const timeoutInMs = options?.timeout || SMALL_TIMEOUT;
    const startTime = Date.now();
    try {
      while (...) { ... }
    } catch (error) {
      console.log(`isElementVisible- ${error instanceof Error ? error.message : String(error)}`);
    }
    return false;
  }
  \<close>
\<close>

definition isElementVisible ::
  "timeouts \<Rightarrow> browser \<Rightarrow> locator_input \<Rightarrow> TimeoutOption option \<Rightarrow> world
     \<Rightarrow> bool outcome \<times> world" where
  "isElementVisible tc b input options w =
     (let (locator, w1) = getLocator input None w;
          timeoutInMs = or_default (opt_timeout options) (SMALL_TIMEOUT tc);
          startTime = Date_now w1
      in case poll_loop b (locator_isVisible b locator options) timeoutInMs startTime w1 of
           (Return v, w2) \<Rightarrow> (Returns v, w2)
         | (Throw e, w2) \<Rightarrow>
             (Returns False, console_log (''isElementVisible- '' @ error_text e) w2)
         | (Normal, w2) \<Rightarrow> (Returns False, w2))"

text \<open>\<^verbatim>\<open>isElementHidden\<close> is the same function over \<^verbatim>\<open>locator.isHidden\<close>.\<close>

definition isElementHidden ::
  "timeouts \<Rightarrow> browser \<Rightarrow> locator_input \<Rightarrow> TimeoutOption option \<Rightarrow> world
     \<Rightarrow> bool outcome \<times> world" where
  "isElementHidden tc b input options w =
     (let (locator, w1) = getLocator input None w;
          timeoutInMs = or_default (opt_timeout options) (SMALL_TIMEOUT tc);
          startTime = Date_now w1
      in case poll_loop b (locator_isHidden b locator options) timeoutInMs startTime w1 of
           (Return v, w2) \<Rightarrow> (Returns v, w2)
         | (Throw e, w2) \<Rightarrow>
             (Returns False, console_log (''isElementHidden- '' @ error_text e) w2)
         | (Normal, w2) \<Rightarrow> (Returns False, w2))"

text \<open>
  \<^verbatim>\<open>
  export async function isElementChecked(input, options?: TimeoutOption): Promise<boolean> {
    try {
      if (await isElementVisible(input, options)) {
        return await getLocator(input).isChecked(options);
      }
    } catch (error) {
      console.log(`isElementChecked- ${...}`);
    }
    return false;
  }
  \<close>
\<close>

definition isElementChecked ::
  "timeouts \<Rightarrow> browser \<Rightarrow> locator_input \<Rightarrow> TimeoutOption option \<Rightarrow> world
     \<Rightarrow> bool outcome \<times> world" where
  "isElementChecked tc b input options w =
     (case isElementVisible tc b input options w of
        (Throws e, w1) \<Rightarrow>
          (Returns False, console_log (''isElementChecked- '' @ error_text e) w1)
      | (Returns v, w1) \<Rightarrow>
          if v then
            (let (locator, w2) = getLocator input None w1 in
             case await (locator_isChecked b locator options) w2 of
               (Returns c, w3) \<Rightarrow> (Returns c, w3)
             | (Throws e, w3) \<Rightarrow>
                 (Returns False, console_log (''isElementChecked- '' @ error_text e) w3))
          else (Returns False, w1))"

text \<open>
  \<^verbatim>\<open>
  export async function isElementAttached(input, options?: TimeoutOption): Promise<boolean> {
    const locator = getLocator(input);
    const timeoutInMs = options?.timeout || SMALL_TIMEOUT;
    try {
      await locator.waitFor({ state: 'attached', timeout: timeoutInMs });
      return true;
    } catch (error) {
      console.log(`isElementAttached- ${...}`);
      return false;
    }
  }
  \<close>
\<close>

definition isElementAttached ::
  "timeouts \<Rightarrow> browser \<Rightarrow> locator_input \<Rightarrow> TimeoutOption option \<Rightarrow> world
     \<Rightarrow> bool outcome \<times> world" where
  "isElementAttached tc b input options w =
     (let (locator, w1) = getLocator input None w;
          timeoutInMs = or_default (opt_timeout options) (SMALL_TIMEOUT tc)
      in case await (locator_waitFor b locator attached timeoutInMs) w1 of
           (Returns _, w2) \<Rightarrow> (Returns True, w2)
         | (Throws e, w2) \<Rightarrow>
             (Returns False, console_log (''isElementAttached- '' @ error_text e) w2))"

text \<open>
  \<^verbatim>\<open>
  export async function getLocatorCount(input, options?: TimeoutOption): Promise<number> {
    const timeoutInMs = options?.timeout || INSTANT_TIMEOUT;
    try {
      if (await isElementAttached(input, { timeout: timeoutInMs })) {
        return (await getAllLocators(input)).length;
      }
    } catch (error) {
      console.log(`getLocatorCount- ${...}`);
    }
    return 0;
  }
  \<close>
\<close>

definition getLocatorCount ::
  "timeouts \<Rightarrow> browser \<Rightarrow> locator_input \<Rightarrow> TimeoutOption option \<Rightarrow> world
     \<Rightarrow> nat outcome \<times> world" where
  "getLocatorCount tc b input options w =
     (let timeoutInMs = or_default (opt_timeout options) (INSTANT_TIMEOUT tc) in
      case isElementAttached tc b input (Some \<lparr>timeout = Some timeoutInMs\<rparr>) w of
        (Throws e, w1) \<Rightarrow>
          (Returns 0, console_log (''getLocatorCount- '' @ error_text e) w1)
      | (Returns v, w1) \<Rightarrow>
          if v then
            (case getAllLocators b input None w1 of
               (Returns ls, w2) \<Rightarrow> (Returns (length ls), w2)
             | (Throws e, w2) \<Rightarrow>
                 (Returns 0, console_log (''getLocatorCount- '' @ error_text e) w2))
          else (Returns 0, w1))"

section \<open>action-utils.ts\<close>

text \<open>
  \<^verbatim>\<open>
  export async function click(input, options?: ClickOptions): Promise<void> {
    const locator = getLocator(input);
    await locator.click(options);
  }
  \<close>
  The call resolves the locator at once and hands back the pending click.
\<close>

definition click ::
  "browser \<Rightarrow> locator_input \<Rightarrow> ClickOptions option \<Rightarrow> world \<Rightarrow> unit awaited \<times> world" where
  "click b input options w =
     (let (locator, w1) = getLocator input None w in (locator_click b locator options, w1))"

text \<open>
  \<^verbatim>\<open>
  export async function clickAndNavigate(input, options?: ClickOptions): Promise<void> {
    const timeout = options?.timeout || STANDARD_TIMEOUT;
    await Promise.all([click(input, options),
                       getPage().waitForEvent('framenavigated', { timeout: timeout })]);
    await getPage().waitForLoadState(options?.loadState || LOADSTATE, { timeout: timeout });
  }
  \<close>
  Nothing is caught: an error of either await leaves the function as it is.
\<close>

definition clickAndNavigate ::
  "timeouts \<Rightarrow> browser \<Rightarrow> locator_input \<Rightarrow> ClickOptions option \<Rightarrow> world
     \<Rightarrow> unit outcome \<times> world" where
  "clickAndNavigate tc b input options w =
     (let timeout_ms = or_default (opt_timeout options) (STANDARD_TIMEOUT tc);
          (clicking, w1) = click b input options w;
          navigating = page_waitForEvent b (getPage w1) ''framenavigated'' timeout_ms
      in case await (Promise_all clicking navigating) w1 of
           (Throws e, w2) \<Rightarrow> (Throws e, w2)
         | (Returns _, w2) \<Rightarrow>
             await (page_waitForLoadState b (getPage w2)
                      (or_loadState (opt_loadState options) LOADSTATE) timeout_ms) w2)"

section \<open>Auxiliary definitions\<close>

text \<open>The shape of a poller: the loop, then the catch.\<close>

definition after_catch :: "string \<Rightarrow> bool completion \<times> world \<Rightarrow> bool outcome \<times> world" where
  "after_catch name cw =
     (case cw of
        (Return v, w2) \<Rightarrow> (Returns v, w2)
      | (Throw e, w2) \<Rightarrow> (Returns False, console_log (name @ error_text e) w2)
      | (Normal, w2) \<Rightarrow> (Returns False, w2))"

section \<open>Concrete worlds and browsers for the examples\<close>

text \<open>
  The timeout constants with values that respect their order, a world at the start of
  a test, and a browser in which nothing ever becomes visible, hidden or attached, the
  page never navigates, and yet the element is checked.
\<close>

definition std_timeouts :: timeouts where
  "std_timeouts = \<lparr>INSTANT_TIMEOUT = 1000, SMALL_TIMEOUT = 5000, STANDARD_TIMEOUT = 15000\<rparr>"

definition start_world :: world where
  "start_world =
     \<lparr>current_page = 1, next_ref = 0, clock = 0, polls = 0, console = [], testInfo = fresh_test\<rparr>"

definition still_browser :: browser where
  "still_browser =
     \<lparr>document = (\<lambda>p. []),
      matches = (\<lambda>s opts n. False),
      locator_isVisible = (\<lambda>l opts i. (0, Returns False)),
      locator_isHidden = (\<lambda>l opts i. (0, Returns False)),
      locator_isChecked = (\<lambda>l opts. (0, Returns True)),
      locator_waitFor = (\<lambda>l st t. (nat t, Throws (TimeoutError ''locator.waitFor: Timeout exceeded''))),
      locator_click = (\<lambda>l opts. (0, Returns ())),
      page_waitForEvent =
        (\<lambda>p ev t. (nat t, Throws (TimeoutError ''page.waitForEvent: Timeout exceeded''))),
      page_waitForLoadState = (\<lambda>p st t. (0, Returns ())),
      timer_late = (\<lambda>i. 0),
      locator_count_error = (\<lambda>l. None)\<rparr>"

definition flaky_sample :: "nat \<Rightarrow> bool awaited" where
  "flaky_sample i = (if i = 0 then (5, Throws (Error ''strict mode violation'')) else (5, Returns True))"

definition flaky_browser :: browser where
  "flaky_browser =
     still_browser\<lparr>locator_isVisible := (\<lambda>l opts. flaky_sample),
                    locator_isHidden := (\<lambda>l opts. flaky_sample)\<rparr>"

definition patient_sample :: "nat \<Rightarrow> bool awaited" where
  "patient_sample i = (if i = 0 then (5, Returns False) else (5, Returns True))"

definition patient_browser :: browser where
  "patient_browser = still_browser\<lparr>locator_isVisible := (\<lambda>l opts. patient_sample)\<rparr>"

definition checked_box :: "Locator \<Rightarrow> TimeoutOption option \<Rightarrow> bool awaited" where
  "checked_box l opts = (0, Returns True)"

text \<open>
  A page with four nodes, of which the selector \<^verbatim>\<open>li\<close> matches the nodes 10 and
  12 and the selector \<^verbatim>\<open>.none\<close> matches nothing; the selector \<^verbatim>\<open>li[\<close>
  cannot be parsed.
\<close>

definition shop_matches :: "string \<Rightarrow> LocatorOptions option \<Rightarrow> node \<Rightarrow> bool" where
  "shop_matches sel opts n = (sel = ''li'' \<and> (n = 10 \<or> n = 12))"

definition shop_count_error :: "Locator \<Rightarrow> js_error option" where
  "shop_count_error l =
     (if selector l = ''li['' then Some (Error ''Unexpected token while parsing selector'')
      else None)"

definition shop_document :: "page \<Rightarrow> node list" where
  "shop_document p = [10, 11, 12, 13]"

definition shop_browser :: browser where
  "shop_browser =
     still_browser\<lparr>document := shop_document, matches := shop_matches,
                    locator_count_error := shop_count_error\<rparr>"

text \<open>A browser in which every visibility sample takes 120 ms and is false.\<close>

definition slow_sample :: "nat \<Rightarrow> bool awaited" where
  "slow_sample i = (120, Returns False)"

definition slow_browser :: browser where
  "slow_browser = still_browser\<lparr>locator_isVisible := (\<lambda>l opts. slow_sample)\<rparr>"

text \<open>
  A browser whose click honours its own timeout option as the browser library documents
  it: an explicit timeout of 0 switches the click's timeout off, an omitted one takes
  the configured action timeout (30 s here). The button can be clicked only after
  40 s, and a frame of the page navigates after 100 ms.
\<close>

definition impatient_click :: "Locator \<Rightarrow> ClickOptions option \<Rightarrow> unit awaited" where
  "impatient_click l opts =
     (if opt_timeout opts = Some 0 then (40000, Returns ())
      else (30000, Throws (TimeoutError ''locator.click: Timeout 30000ms exceeded'')))"

definition frame_event :: "page \<Rightarrow> string \<Rightarrow> int \<Rightarrow> unit awaited" where
  "frame_event p ev t = (100, Returns ())"

definition waiting_browser :: browser where
  "waiting_browser =
     still_browser\<lparr>locator_click := impatient_click, page_waitForEvent := frame_event\<rparr>"

section \<open>Properties of the soft-assertion batch\<close>

lemma errors_after_soft_failures:
  "errors (foldl record_soft_failure t es) = errors t @ es"
  by (induction es arbitrary: t) (simp_all add: record_soft_failure_def)

text \<open>
  C5: after N soft failures have been recorded in the error list of a test,
  one call of assertAllSoftAssertions fails if and only if the list is not empty, the
  failure reports the length N of the list against the expected length 0, and with
  N = 0 the call passes.
\<close>

theorem assertAllSoftAssertions_fails_iff_nonempty:
  "(assertAllSoftAssertions (foldl record_soft_failure fresh_test es)
      = Inl (LengthMismatch 0 (length es))) = (es \<noteq> [])
   \<and> (assertAllSoftAssertions (foldl record_soft_failure fresh_test es) = Inr ()) = (es = [])
   \<and> (assertAllSoftAssertions t = Inr ()) = (errors t = [])
   \<and> (assertAllSoftAssertions t = Inl (LengthMismatch 0 (length (errors t)))) = (errors t \<noteq> [])"
  by (simp add: assertAllSoftAssertions_def toHaveLength_def errors_after_soft_failures
      fresh_test_def)

section \<open>Properties of the reporter and of the log line\<close>

text \<open>
  C4: for every test case, onTestBegin writes exactly one line, at level info, with the
  message "Starting Test Case: <title>"; onTestEnd writes exactly one line at level info
  when the status is passed (the message "Test Case Passed: <title>" between the escape
  codes for green, ESC[32m, and for reset, ESC[0m) or skipped (the message
  "Test Case Skipped: <title>" between the codes for yellow, ESC[33m, and for reset) and
  writes nothing when the status is failed, nor for any other status; for a test that
  begins and then passes, the begin line comes before the end line. Each line is
  spelled out in full: time stamp, level in brackets, message.
\<close>

theorem reporter_logs_begin_then_end:
  "onTestBegin lib test out
     = out @ [(info, timestamp_at lib (length out) @ '' ['' @ colorize lib info ''info'' @ '']: ''
                @ colorize lib info (''Starting Test Case: '' @ title test))]
   \<and> (status result = passed \<longrightarrow>
        onTestEnd lib test result out
          = out @ [(info, timestamp_at lib (length out) @ '' ['' @ colorize lib info ''info''
                     @ '']: ''
                     @ colorize lib info
                         (CHR 0x1B # ''[32mTest Case Passed: '' @ title test
                            @ CHR 0x1B # ''[0m''))])
   \<and> (status result = skipped \<longrightarrow>
        onTestEnd lib test result out
          = out @ [(info, timestamp_at lib (length out) @ '' ['' @ colorize lib info ''info''
                     @ '']: ''
                     @ colorize lib info
                         (CHR 0x1B # ''[33mTest Case Skipped: '' @ title test
                            @ CHR 0x1B # ''[0m''))])
   \<and> (status result = failed \<longrightarrow> onTestEnd lib test result out = out)
   \<and> (status result \<noteq> passed \<and> status result \<noteq> skipped \<longrightarrow>
        onTestEnd lib test result out = out)
   \<and> (status result = passed \<longrightarrow>
        onTestEnd lib test result (onTestBegin lib test out)
          = out @ [(info, timestamp_at lib (length out) @ '' ['' @ colorize lib info ''info''
                     @ '']: '' @ colorize lib info (''Starting Test Case: '' @ title test)),
                   (info, timestamp_at lib (Suc (length out)) @ '' [''
                     @ colorize lib info ''info'' @ '']: ''
                     @ colorize lib info
                         (CHR 0x1B # ''[32mTest Case Passed: '' @ title test
                            @ CHR 0x1B # ''[0m''))])"
  by (simp add: onTestBegin_def onTestEnd_def logger_info_def logger_log_def format_line_def
      printf_template_def add_timestamp_def colorize_all_def)

theorem reporter_logs_begin_then_end_witness:
  "onTestEnd plain_winston checkout_test \<lparr>status = passed, result_error = None\<rparr>
       (onTestBegin plain_winston checkout_test [])
     = [(info, ''T [<info>info</>]: <info>Starting Test Case: checkout</>''),
        (info, ''IT [<info>info</>]: <info>'' @ CHR 0x1B # ''[32mTest Case Passed: checkout''
                 @ CHR 0x1B # ''[0m</>'')]
   \<and> onTestEnd plain_winston checkout_test \<lparr>status = skipped, result_error = None\<rparr> []
     = [(info, ''T [<info>info</>]: <info>'' @ CHR 0x1B # ''[33mTest Case Skipped: checkout''
                 @ CHR 0x1B # ''[0m</>'')]
   \<and> onTestEnd plain_winston checkout_test
        \<lparr>status = failed, result_error = Some (Error ''expected 1, got 2'')\<rparr>
        [(info, ''earlier line'')]
     = [(info, ''earlier line'')]"
proof -
  have colour: "colorize plain_winston info s = ''<info>'' @ s @ ''</>''" for s
    by (simp add: plain_winston_def)
  have stamp: "timestamp_at plain_winston 0 = ''T''" "timestamp_at plain_winston (Suc 0) = ''IT''"
    by (simp_all add: plain_winston_def)
  have name: "title checkout_test = ''checkout''"
    by (simp add: checkout_test_def)
  have st: "status \<lparr>status = passed, result_error = None\<rparr> = passed"
    "status \<lparr>status = skipped, result_error = None\<rparr> = skipped"
    by simp_all
  from reporter_logs_begin_then_end [of plain_winston checkout_test "[]"
      "\<lparr>status = passed, result_error = None\<rparr>",
      THEN conjunct2, THEN conjunct2, THEN conjunct2, THEN conjunct2, THEN conjunct2,
      THEN mp, OF st(1)]
  have pass: "onTestEnd plain_winston checkout_test \<lparr>status = passed, result_error = None\<rparr>
       (onTestBegin plain_winston checkout_test [])
     = [(info, ''T [<info>info</>]: <info>Starting Test Case: checkout</>''),
        (info, ''IT [<info>info</>]: <info>'' @ CHR 0x1B # ''[32mTest Case Passed: checkout''
                 @ CHR 0x1B # ''[0m</>'')]"
    by (simp add: colour stamp name)
  from reporter_logs_begin_then_end [of plain_winston checkout_test "[]"
      "\<lparr>status = skipped, result_error = None\<rparr>",
      THEN conjunct2, THEN conjunct2, THEN conjunct1, THEN mp, OF st(2)]
  have skip: "onTestEnd plain_winston checkout_test \<lparr>status = skipped, result_error = None\<rparr> []
     = [(info, ''T [<info>info</>]: <info>'' @ CHR 0x1B # ''[33mTest Case Skipped: checkout''
                 @ CHR 0x1B # ''[0m</>'')]"
    by (simp add: colour stamp name)
  from reporter_logs_begin_then_end [of plain_winston checkout_test "[(info, ''earlier line'')]"
      "\<lparr>status = failed, result_error = Some (Error ''expected 1, got 2'')\<rparr>"]
  have fail: "onTestEnd plain_winston checkout_test
        \<lparr>status = failed, result_error = Some (Error ''expected 1, got 2'')\<rparr>
        [(info, ''earlier line'')]
     = [(info, ''earlier line'')]"
    by simp
  from pass skip fail show ?thesis by (intro conjI)
qed

text \<open>
  C8: every line the logger writes, for every level and message, is the time stamp,
  a space, the level in square brackets, a colon, a space and the message, where the
  level and the message are the fields as they reach the template, that is, as the
  colouring format has left them. A call either writes no line (its level is below the
  logger's) or writes exactly one line of this form.
\<close>

theorem log_line_format:
  "printf_template i = timestamp i @ '' ['' @ level i @ '']: '' @ message i
   \<and> format_line lib n lvl msg
       = timestamp_at lib n @ '' ['' @ colorize lib lvl (level_name lvl) @ '']: ''
           @ colorize lib lvl msg
   \<and> (logger_log lib lvl msg out = out
       \<or> logger_log lib lvl msg out
           = out @ [(lvl, timestamp_at lib (length out) @ '' [''
                          @ colorize lib lvl (level_name lvl) @ '']: '' @ colorize lib lvl msg)])"
  by (simp add: format_line_def printf_template_def add_timestamp_def colorize_all_def
      logger_log_def)

section \<open>Properties of the locator resolver\<close>

text \<open>
  C6: getLocator returns a locator it is given unchanged, and leaves the world
  unchanged, so resolving the result of a resolution again changes nothing; for a
  string, each call makes a new locator object (the second call's object is not the
  first's) for the page that is current when the call is made, with that string as its
  selector: nothing is remembered from one call to the next.
\<close>

theorem getLocator_passes_handles_through:
  "getLocator (Handle l) opts w = (l, w)
   \<and> getLocator (Handle (fst (getLocator input opts w))) opts' (snd (getLocator input opts w))
       = getLocator input opts w
   \<and> ref (fst (getLocator (Selector s) opts (snd (getLocator (Selector s) opts w))))
       \<noteq> ref (fst (getLocator (Selector s) opts w))
   \<and> of_page (fst (getLocator (Selector s) opts w)) = getPage w
   \<and> of_page (fst (getLocator (Selector s) opts (setPage p (snd (getLocator (Selector s) opts w)))))
       = p
   \<and> selector (fst (getLocator (Selector s) opts w)) = s
   \<and> picks (fst (getLocator (Selector s) opts w)) = []"
  by (simp add: getLocator_def page_locator_def getPage_def setPage_def split: locator_input.split)

lemma resolve_nth:
  "i < length (resolve b l) \<Longrightarrow> resolve b (locator_nth l i r) = [resolve b l ! i]"
  by (simp add: resolve_def locator_nth_def pick_def)

lemma resolve_all:
  "map (\<lambda>i. resolve b (locator_nth l i (r + i))) [0..<length (resolve b l)]
     = map (\<lambda>n. [n]) (resolve b l)"
  by (rule nth_equalityI) (simp_all add: resolve_nth)

lemma locator_all_resolves:
  "locator_count_error b l = None \<Longrightarrow>
     \<exists>ls. fst (locator_all b l w) = Returns ls
      \<and> map (resolve b) ls = map (\<lambda>n. [n]) (resolve b l)"
  by (simp add: locator_all_def locator_count_def resolve_all o_def)

lemma locator_all_fails:
  "locator_count_error b l = Some e \<Longrightarrow> locator_all b l w = (Throws e, w)"
  by (simp add: locator_all_def)

lemma resolve_page_locator:
  "resolve b (fst (page_locator p s opts w)) = filter (matches b s opts) (document b p)"
  by (simp add: resolve_def page_locator_def)

lemma getAllLocators_locator_all:
  "getAllLocators b input opts w
     = locator_all b (fst (getLocator input opts w)) (snd (getLocator input opts w))"
  by (cases input) (auto simp: getAllLocators_def getLocator_def split: prod.splits)

text \<open>
  C7 (as amended): for every query whose elements the browser library can count (its
  selector can be parsed), getAllLocators returns a list of locators, with one
  locator for each node the query matches, in the order of the matching nodes in the
  document (the i-th locator finds exactly the i-th matching node); the list is empty
  exactly when no node matches, so no match is not an error. For a string the
  matching nodes are the nodes of the current page's document that the selector
  matches, in document order. When the library cannot count the elements,
  getAllLocators throws the library's error to its caller.
\<close>

theorem getAllLocators_one_per_node:
  "(locator_count_error b (fst (getLocator input opts w)) = None \<longrightarrow>
      (\<exists>ls. fst (getAllLocators b input opts w) = Returns ls
         \<and> map (resolve b) ls = map (\<lambda>n. [n]) (resolve b (fst (getLocator input opts w)))
         \<and> length ls = length (resolve b (fst (getLocator input opts w)))
         \<and> (ls = []) = (resolve b (fst (getLocator input opts w)) = [])))
   \<and> (locator_count_error b (fst (getLocator input opts w)) = Some e \<longrightarrow>
        getAllLocators b input opts w = (Throws e, snd (getLocator input opts w)))
   \<and> resolve b (fst (getLocator (Selector s) opts w))
       = filter (matches b s opts) (document b (getPage w))"
proof -
  let ?l = "fst (getLocator input opts w)"
  let ?w1 = "snd (getLocator input opts w)"
  note all = getAllLocators_locator_all [of b input opts w]
  have ok: "\<exists>ls. fst (getAllLocators b input opts w) = Returns ls
         \<and> map (resolve b) ls = map (\<lambda>n. [n]) (resolve b ?l)
         \<and> length ls = length (resolve b ?l)
         \<and> (ls = []) = (resolve b ?l = [])"
    if none: "locator_count_error b ?l = None"
  proof -
    obtain ls where ls: "fst (locator_all b ?l ?w1) = Returns ls"
      "map (resolve b) ls = map (\<lambda>n. [n]) (resolve b ?l)"
      using locator_all_resolves [OF none, of ?w1] by blast
    from ls(2) have len: "length ls = length (resolve b ?l)"
      by (metis length_map)
    then have "(ls = []) = (resolve b ?l = [])"
      by (metis length_0_conv)
    with ls len all show ?thesis by simp
  qed
  have bad: "getAllLocators b input opts w = (Throws e, ?w1)"
    if "locator_count_error b ?l = Some e"
    using locator_all_fails [OF that, of ?w1] all by simp
  have sel: "resolve b (fst (getLocator (Selector s) opts w))
       = filter (matches b s opts) (document b (getPage w))"
    by (simp add: resolve_page_locator getLocator_def)
  from ok bad sel show ?thesis by blast
qed

lemma shop_locator:
  "getLocator (Selector s) None start_world
     = (\<lparr>ref = 0, of_page = 1, selector = s, locator_options = None, picks = []\<rparr>,
        start_world\<lparr>next_ref := 1\<rparr>)"
  by (simp add: getLocator_def page_locator_def getPage_def start_world_def)

lemma shop_fields:
  "document shop_browser = shop_document" "matches shop_browser = shop_matches"
  "locator_count_error shop_browser = shop_count_error"
  by (simp_all add: shop_browser_def)

lemma shop_resolve:
  "resolve shop_browser \<lparr>ref = r, of_page = p, selector = ''li'', locator_options = None,
      picks = ps\<rparr> = foldl pick [10, 12] ps"
  "resolve shop_browser \<lparr>ref = r, of_page = p, selector = ''.none'', locator_options = None,
      picks = ps\<rparr> = foldl pick [] ps"
  by (simp_all add: resolve_def shop_fields shop_document_def shop_matches_def)

lemma shop_li_run:
  "getAllLocators shop_browser (Selector ''li'') None start_world
     = (Returns [\<lparr>ref = 1, of_page = 1, selector = ''li'', locator_options = None, picks = [0]\<rparr>,
                 \<lparr>ref = 2, of_page = 1, selector = ''li'', locator_options = None, picks = [1]\<rparr>],
        start_world\<lparr>next_ref := 3\<rparr>)"
  by (simp add: getAllLocators_locator_all shop_locator locator_all_def locator_count_def
      shop_resolve shop_fields shop_count_error_def locator_nth_def upt_rec [of 0]
      upt_rec [of 1] upt_rec [of "Suc 0"])

theorem getAllLocators_one_per_node_witness:
  "fst (getAllLocators shop_browser (Selector ''li'') None start_world)
     = Returns [\<lparr>ref = 1, of_page = 1, selector = ''li'', locator_options = None, picks = [0]\<rparr>,
                \<lparr>ref = 2, of_page = 1, selector = ''li'', locator_options = None, picks = [1]\<rparr>]
   \<and> map (resolve shop_browser)
        [\<lparr>ref = 1, of_page = 1, selector = ''li'', locator_options = None, picks = [0]\<rparr>,
         \<lparr>ref = 2, of_page = 1, selector = ''li'', locator_options = None, picks = [1]\<rparr>]
     = [[10], [12]]
   \<and> fst (getAllLocators shop_browser (Selector ''.none'') None start_world) = Returns []
   \<and> getAllLocators shop_browser (Selector ''li['') None start_world
     = (Throws (Error ''Unexpected token while parsing selector''), start_world\<lparr>next_ref := 1\<rparr>)"
proof -
  let ?li = "\<lparr>ref = 0, of_page = 1, selector = ''li'', locator_options = None, picks = []\<rparr>"
  have li: "locator_count_error shop_browser (fst (getLocator (Selector ''li'') None start_world))
      = None"
    and none: "locator_count_error shop_browser
      (fst (getLocator (Selector ''.none'') None start_world)) = None"
    and bad: "locator_count_error shop_browser
      (fst (getLocator (Selector ''li['') None start_world))
      = Some (Error ''Unexpected token while parsing selector'')"
    by (simp_all add: shop_locator shop_fields shop_count_error_def)
  note t = getAllLocators_one_per_node [of shop_browser "Selector ''li''" None start_world]
  from t li obtain ls where ls:
    "fst (getAllLocators shop_browser (Selector ''li'') None start_world) = Returns ls"
    "map (resolve shop_browser) ls
       = map (\<lambda>n. [n]) (resolve shop_browser (fst (getLocator (Selector ''li'') None start_world)))"
    by blast
  from ls(1) have ls_eq: "ls =
      [\<lparr>ref = 1, of_page = 1, selector = ''li'', locator_options = None, picks = [0]\<rparr>,
       \<lparr>ref = 2, of_page = 1, selector = ''li'', locator_options = None, picks = [1]\<rparr>]"
    by (simp add: shop_li_run)
  from ls(2) have nodes: "map (resolve shop_browser) ls = [[10], [12]]"
    by (simp add: shop_locator shop_resolve)
  note u = getAllLocators_one_per_node [of shop_browser "Selector ''.none''" None start_world]
  from u none obtain ks where ks:
    "fst (getAllLocators shop_browser (Selector ''.none'') None start_world) = Returns ks"
    "(ks = []) = (resolve shop_browser
        (fst (getLocator (Selector ''.none'') None start_world)) = [])"
    by blast
  from ks(2) have "ks = []"
    by (simp add: shop_locator shop_resolve)
  with ks(1) have empty:
    "fst (getAllLocators shop_browser (Selector ''.none'') None start_world) = Returns []"
    by simp
  note v = getAllLocators_one_per_node [of shop_browser "Selector ''li[''" None start_world
      "Error ''Unexpected token while parsing selector''"]
  from v bad have thrown: "getAllLocators shop_browser (Selector ''li['') None start_world
     = (Throws (Error ''Unexpected token while parsing selector''), start_world\<lparr>next_ref := 1\<rparr>)"
    by (simp add: shop_locator)
  from ls(1) ls_eq nodes empty thrown show ?thesis by simp
qed

text \<open>
  The claim as stated fails: for the query \<^verbatim>\<open>li[\<close>, which cannot be parsed,
  getAllLocators returns no list; it throws the library's error.
\<close>

theorem getAllLocators_throws_on_bad_selector:
  "fst (getAllLocators shop_browser (Selector ''li['') None start_world)
     = Throws (Error ''Unexpected token while parsing selector'')"
  by (simp add: getAllLocators_locator_all shop_locator locator_all_def shop_fields
      shop_count_error_def)

section \<open>Properties of the polling loop\<close>

text \<open>
  The loop is unfolded one round at a time, by the four ways a round can go: the budget
  has expired, the sample throws, the sample is true, the sample is false.
\<close>

declare poll_loop.simps [simp del]

lemma poll_loop_expired:
  "\<not> Date_now w - s < T \<Longrightarrow> poll_loop b sample T s w = (Normal, w)"
  by (simp add: poll_loop.simps [of b sample T s w])

lemma poll_loop_throws:
  "Date_now w - s < T \<Longrightarrow> snd (sample (polls w)) = Throws e \<Longrightarrow>
     poll_loop b sample T s w = (Throw e, snd (await_sample (sample (polls w)) w))"
  by (simp add: poll_loop.simps [of b sample T s w] await_sample_def)

lemma poll_loop_true:
  "Date_now w - s < T \<Longrightarrow> snd (sample (polls w)) = Returns True \<Longrightarrow>
     poll_loop b sample T s w = (Return True, snd (await_sample (sample (polls w)) w))"
  by (simp add: poll_loop.simps [of b sample T s w] await_sample_def)

lemma poll_loop_false:
  "Date_now w - s < T \<Longrightarrow> snd (sample (polls w)) = Returns False \<Longrightarrow>
     poll_loop b sample T s w =
       poll_loop b sample T s (sleep b 100 (snd (await_sample (sample (polls w)) w)))"
  by (simp add: poll_loop.simps [of b sample T s w] await_sample_def)

lemma sample_cases:
  obtains e where "snd (p :: bool awaited) = Throws e"
  | "snd p = Returns True" | "snd p = Returns False"
  by (cases "snd p") auto

lemma poll_loop_rounds [case_names expired throws true false]:
  assumes expired: "\<And>w. \<not> Date_now w - s < T \<Longrightarrow> P w"
    and throws: "\<And>w e. Date_now w - s < T \<Longrightarrow> snd (sample (polls w)) = Throws e \<Longrightarrow> P w"
    and true: "\<And>w. Date_now w - s < T \<Longrightarrow> snd (sample (polls w)) = Returns True \<Longrightarrow> P w"
    and false: "\<And>w. Date_now w - s < T \<Longrightarrow> snd (sample (polls w)) = Returns False \<Longrightarrow>
                  P (sleep b 100 (snd (await_sample (sample (polls w)) w))) \<Longrightarrow> P w"
  shows "P w"
proof (induction "nat (T - (clock w - s))" arbitrary: w rule: less_induct)
  case less
  show ?case
  proof (cases "Date_now w - s < T")
    case False
    then show ?thesis by (rule expired)
  next
    case live: True
    show ?thesis
    proof (cases "sample (polls w)" rule: sample_cases)
      case (1 e)
      with live show ?thesis by (rule throws)
    next
      case 2
      with live show ?thesis by (rule true)
    next
      case 3
      have "P (sleep b 100 (snd (await_sample (sample (polls w)) w)))"
        using live by (intro less) (simp add: sleep_def await_sample_def Date_now_def)
      with live 3 show ?thesis by (rule false)
    qed
  qed
qed

lemma poll_loop_frame:
  "poll_loop b sample T s w = (c, w') \<Longrightarrow>
     polls w \<le> polls w' \<and> clock w \<le> clock w' \<and> console w' = console w
     \<and> testInfo w' = testInfo w \<and> current_page w' = current_page w \<and> next_ref w' = next_ref w"
proof (induction w rule: poll_loop_rounds [where b = b and sample = sample and T = T and s = s])
  case (expired w)
  then show ?case by (auto simp: poll_loop_expired)
next
  case (throws w e)
  then show ?case by (auto simp: poll_loop_throws await_sample_def)
next
  case (true w)
  then show ?case by (auto simp: poll_loop_true await_sample_def)
next
  case (false w)
  then show ?case by (simp add: poll_loop_false sleep_def await_sample_def)
qed

lemma poll_loop_earlier_samples:
  "poll_loop b sample T s w = (c, w') \<Longrightarrow> polls w \<le> i \<Longrightarrow> Suc i < polls w' \<Longrightarrow>
     snd (sample i) = Returns False"
proof (induction w rule: poll_loop_rounds [where b = b and sample = sample and T = T and s = s])
  case (expired w)
  then show ?case by (auto simp: poll_loop_expired)
next
  case (throws w e)
  then show ?case by (auto simp: poll_loop_throws await_sample_def)
next
  case (true w)
  then show ?case by (auto simp: poll_loop_true await_sample_def)
next
  case (false w)
  show ?case
  proof (cases "i = polls w")
    case True
    with false show ?thesis by simp
  next
    case False
    with false show ?thesis by (simp add: poll_loop_false sleep_def await_sample_def)
  qed
qed

lemma poll_loop_last_sample:
  "poll_loop b sample T s w = (c, w') \<Longrightarrow>
     (case c of
        Return v \<Rightarrow> v \<and> polls w < polls w' \<and> snd (sample (polls w' - 1)) = Returns True
      | Throw e \<Rightarrow> polls w < polls w' \<and> snd (sample (polls w' - 1)) = Throws e
      | Normal \<Rightarrow> T \<le> clock w' - s
          \<and> (polls w < polls w' \<longrightarrow> snd (sample (polls w' - 1)) = Returns False))"
proof (induction w rule: poll_loop_rounds [where b = b and sample = sample and T = T and s = s])
  case (expired w)
  then show ?case by (auto simp: poll_loop_expired Date_now_def)
next
  case (throws w e)
  then show ?case by (auto simp: poll_loop_throws await_sample_def)
next
  case (true w)
  then show ?case by (auto simp: poll_loop_true await_sample_def)
next
  case (false w)
  let ?w1 = "sleep b 100 (snd (await_sample (sample (polls w)) w))"
  from false have run: "poll_loop b sample T s ?w1 = (c, w')"
    by (simp add: poll_loop_false)
  have p1: "polls ?w1 = Suc (polls w)"
    by (simp add: sleep_def await_sample_def)
  from poll_loop_frame [OF run] have mono: "Suc (polls w) \<le> polls w'"
    by (simp add: p1)
  show ?case
  proof (cases "polls w' = Suc (polls w)")
    case True
    with false.IH [OF run] false.hyps(2) show ?thesis
      by (auto simp: p1 split: completion.splits)
  next
    case False
    with mono false.IH [OF run] show ?thesis
      by (auto simp: p1 split: completion.splits)
  qed
qed

lemma poll_loop_samples_once_live:
  "poll_loop b sample T s w = (c, w') \<Longrightarrow> Date_now w - s < T \<Longrightarrow> polls w < polls w'"
proof (cases "sample (polls w)" rule: sample_cases)
  case (1 e)
  assume "poll_loop b sample T s w = (c, w')" "Date_now w - s < T"
  with 1 show ?thesis by (auto simp: poll_loop_throws await_sample_def)
next
  case 2
  assume "poll_loop b sample T s w = (c, w')" "Date_now w - s < T"
  with 2 show ?thesis by (auto simp: poll_loop_true await_sample_def)
next
  case 3
  assume a: "poll_loop b sample T s w = (c, w')" "Date_now w - s < T"
  with 3 have "poll_loop b sample T s (sleep b 100 (snd (await_sample (sample (polls w)) w))) = (c, w')"
    by (simp add: poll_loop_false)
  from poll_loop_frame [OF this] show ?thesis
    by (simp add: sleep_def await_sample_def)
qed

lemma poll_loop_throw_time:
  "poll_loop b sample T s w = (Throw e, w') \<Longrightarrow>
     clock w' - int (fst (sample (polls w' - 1))) - s < T"
proof (induction w rule: poll_loop_rounds [where b = b and sample = sample and T = T and s = s])
  case (expired w)
  then show ?case by (auto simp: poll_loop_expired)
next
  case (throws w e')
  then show ?case by (auto simp: poll_loop_throws await_sample_def Date_now_def)
next
  case (true w)
  then show ?case by (auto simp: poll_loop_true)
next
  case (false w)
  then show ?case by (simp add: poll_loop_false)
qed

text \<open>
  The time a run of the loop takes, exactly: the durations of the samples it has taken
  and a sleep of 100 ms (and the timer's lateness) after each of them, but for the
  last one when the loop was left by a sample that was true or that threw.
\<close>

lemma poll_loop_clock:
  "poll_loop b sample T s w = (c, w') \<Longrightarrow>
     clock w' = clock w + (\<Sum>k = polls w..<polls w'. int (fst (sample k)))
       + (\<Sum>k = polls w..<(if c = Normal then polls w' else polls w' - 1).
            100 + int (timer_late b (Suc k)))"
proof (induction w rule: poll_loop_rounds [where b = b and sample = sample and T = T and s = s])
  case (expired w)
  then show ?case by (auto simp: poll_loop_expired)
next
  case (throws w e)
  then show ?case by (auto simp: poll_loop_throws await_sample_def)
next
  case (true w)
  then show ?case by (auto simp: poll_loop_true await_sample_def)
next
  case (false w)
  let ?w1 = "sleep b 100 (snd (await_sample (sample (polls w)) w))"
  let ?ub = "if c = Normal then polls w' else polls w' - 1"
  from false have run: "poll_loop b sample T s ?w1 = (c, w')"
    by (simp add: poll_loop_false)
  have p1: "polls ?w1 = Suc (polls w)"
    and c1: "clock ?w1 = clock w + int (fst (sample (polls w))) + 100
               + int (timer_late b (Suc (polls w)))"
    by (simp_all add: sleep_def await_sample_def)
  from poll_loop_frame [OF run] have mono: "polls w < polls w'"
    by (simp add: p1)
  have ub: "polls w < ?ub"
    using poll_loop_last_sample [OF run] mono by (cases c) (auto simp: p1)
  have s1: "(\<Sum>k = polls w..<polls w'. int (fst (sample k)))
      = int (fst (sample (polls w))) + (\<Sum>k = Suc (polls w)..<polls w'. int (fst (sample k)))"
    using mono by (simp add: sum.atLeast_Suc_lessThan)
  have s2: "(\<Sum>k = polls w..<?ub. 100 + int (timer_late b (Suc k)))
      = 100 + int (timer_late b (Suc (polls w)))
        + (\<Sum>k = Suc (polls w)..<?ub. 100 + int (timer_late b (Suc k)))"
    using ub by (simp only: sum.atLeast_Suc_lessThan)
  from false.IH [OF run] show ?case
    unfolding p1 c1 s1 s2 by simp
qed

lemma poll_loop_world:
  "poll_loop b sample T s w = (c, w') \<Longrightarrow> w' = w\<lparr>clock := clock w', polls := polls w'\<rparr>"
proof (induction w rule: poll_loop_rounds [where b = b and sample = sample and T = T and s = s])
  case (expired w)
  then show ?case by (auto simp: poll_loop_expired)
next
  case (throws w e)
  then show ?case by (auto simp: poll_loop_throws await_sample_def)
next
  case (true w)
  then show ?case by (auto simp: poll_loop_true await_sample_def)
next
  case (false w)
  let ?w1 = "sleep b 100 (snd (await_sample (sample (polls w)) w))"
  from false have run: "poll_loop b sample T s ?w1 = (c, w')"
    by (simp add: poll_loop_false)
  from false.IH [OF run] have "w' = ?w1\<lparr>clock := clock w', polls := polls w'\<rparr>" .
  also have "\<dots> = w\<lparr>clock := clock w', polls := polls w'\<rparr>"
    by (simp add: sleep_def await_sample_def)
  finally show ?case .
qed

text \<open>The last sample of a run was issued while the budget had not run out.\<close>

lemma poll_loop_last_issue:
  "poll_loop b sample T s w = (c, w') \<Longrightarrow> polls w < polls w' \<Longrightarrow>
     clock w - s
       + (\<Sum>k = polls w..<polls w' - 1. int (fst (sample k)) + 100 + int (timer_late b (Suc k)))
     < T"
proof (induction w rule: poll_loop_rounds [where b = b and sample = sample and T = T and s = s])
  case (expired w)
  then show ?case by (auto simp: poll_loop_expired)
next
  case (throws w e)
  then show ?case by (auto simp: poll_loop_throws await_sample_def Date_now_def)
next
  case (true w)
  then show ?case by (auto simp: poll_loop_true await_sample_def Date_now_def)
next
  case (false w)
  let ?w1 = "sleep b 100 (snd (await_sample (sample (polls w)) w))"
  from false have run: "poll_loop b sample T s ?w1 = (c, w')"
    by (simp add: poll_loop_false)
  have p1: "polls ?w1 = Suc (polls w)"
    and c1: "clock ?w1 = clock w + int (fst (sample (polls w))) + 100
               + int (timer_late b (Suc (polls w)))"
    by (simp_all add: sleep_def await_sample_def)
  from poll_loop_frame [OF run] have mono: "Suc (polls w) \<le> polls w'"
    by (simp add: p1)
  show ?case
  proof (cases "polls w' = Suc (polls w)")
    case True
    with false.hyps(1) show ?thesis by (simp add: Date_now_def)
  next
    case False
    with mono have lt: "polls ?w1 < polls w'" and ub: "polls w < polls w' - 1"
      by (simp_all add: p1)
    have split: "(\<Sum>k = polls w..<polls w' - 1.
          int (fst (sample k)) + 100 + int (timer_late b (Suc k)))
        = int (fst (sample (polls w))) + 100 + int (timer_late b (Suc (polls w)))
          + (\<Sum>k = Suc (polls w)..<polls w' - 1.
               int (fst (sample k)) + 100 + int (timer_late b (Suc k)))"
      using ub by (simp only: sum.atLeast_Suc_lessThan)
    from false.IH [OF run lt] show ?thesis
      unfolding p1 c1 split by simp
  qed
qed

lemma poll_loop_throw_is_last:
  assumes run: "poll_loop b sample T s w = (c, w')"
    and i: "polls w \<le> i" "i < polls w'"
    and thrown: "snd (sample i) = Throws e"
  shows "c = Throw e \<and> polls w' = Suc i"
proof -
  have last: "polls w' = Suc i"
  proof (rule ccontr)
    assume "polls w' \<noteq> Suc i"
    with i have "Suc i < polls w'" by simp
    from poll_loop_earlier_samples [OF run i(1) this] thrown show False by simp
  qed
  with poll_loop_last_sample [OF run] thrown i show ?thesis
    by (auto split: completion.splits)
qed

lemma poll_loop_elapsed_upper:
  assumes d: "\<forall>i. fst (sample i) + timer_late b (Suc i) \<le> d"
  shows "poll_loop b sample T s w = (c, w') \<Longrightarrow>
           clock w' - clock w \<le> int (polls w' - polls w) * (100 + int d)"
proof (induction w rule: poll_loop_rounds [where b = b and sample = sample and T = T and s = s])
  case (expired w)
  then show ?case by (auto simp: poll_loop_expired)
next
  case (throws w e)
  from d have "fst (sample (polls w)) \<le> d"
    by (metis add_leD1)
  with throws show ?case by (auto simp: poll_loop_throws await_sample_def)
next
  case (true w)
  from d have "fst (sample (polls w)) \<le> d"
    by (metis add_leD1)
  with true show ?case by (auto simp: poll_loop_true await_sample_def)
next
  case (false w)
  let ?w1 = "sleep b 100 (snd (await_sample (sample (polls w)) w))"
  from false have run: "poll_loop b sample T s ?w1 = (c, w')"
    by (simp add: poll_loop_false)
  have p1: "polls ?w1 = Suc (polls w)"
    and c1: "clock ?w1 = clock w + int (fst (sample (polls w))) + 100 + int (timer_late b (Suc (polls w)))"
    by (simp_all add: sleep_def await_sample_def)
  from poll_loop_frame [OF run] have mono: "Suc (polls w) \<le> polls w'"
    by (simp add: p1)
  then have n: "int (polls w' - polls w) = int (polls w' - Suc (polls w)) + 1"
    by simp
  from d have "fst (sample (polls w)) + timer_late b (Suc (polls w)) \<le> d"
    by blast
  then have step: "clock ?w1 - clock w \<le> 100 + int d"
    by (simp add: c1)
  from false.IH [OF run] have "clock w' - clock ?w1 \<le> int (polls w' - Suc (polls w)) * (100 + int d)"
    by (simp add: p1)
  with step show ?case
    by (simp add: n algebra_simps)
qed

lemma poll_loop_count_upper:
  "poll_loop b sample T s w = (c, w') \<Longrightarrow> polls w < polls w' \<Longrightarrow>
     (int (polls w' - polls w) - 1) * 100 < T - (clock w - s)"
proof (induction w rule: poll_loop_rounds [where b = b and sample = sample and T = T and s = s])
  case (expired w)
  then show ?case by (auto simp: poll_loop_expired)
next
  case (throws w e)
  then show ?case by (auto simp: poll_loop_throws await_sample_def Date_now_def)
next
  case (true w)
  then show ?case by (auto simp: poll_loop_true await_sample_def Date_now_def)
next
  case (false w)
  let ?w1 = "sleep b 100 (snd (await_sample (sample (polls w)) w))"
  from false have run: "poll_loop b sample T s ?w1 = (c, w')"
    by (simp add: poll_loop_false)
  have p1: "polls ?w1 = Suc (polls w)"
    and c1: "clock w + 100 \<le> clock ?w1"
    by (simp_all add: sleep_def await_sample_def)
  from poll_loop_frame [OF run] have mono: "Suc (polls w) \<le> polls w'"
    by (simp add: p1)
  show ?case
  proof (cases "polls w' = Suc (polls w)")
    case True
    with false.hyps(1) show ?thesis by (simp add: Date_now_def)
  next
    case False
    with mono have lt: "polls ?w1 < polls w'" by (simp add: p1)
    from mono have n: "int (polls w' - polls w) = int (polls w' - Suc (polls w)) + 1"
      by simp
    from false.IH [OF run lt] c1 show ?thesis
      by (simp add: p1 n algebra_simps)
  qed
qed

lemma poll_loop_all_false:
  assumes never: "\<forall>i. snd (sample i) = Returns False"
  shows "poll_loop b sample T s w = (c, w') \<Longrightarrow>
           c = Normal \<and> 100 * int (polls w' - polls w) \<le> clock w' - clock w"
proof (induction w rule: poll_loop_rounds [where b = b and sample = sample and T = T and s = s])
  case (expired w)
  then show ?case by (auto simp: poll_loop_expired)
next
  case (throws w e)
  with never show ?case by simp
next
  case (true w)
  with never show ?case by simp
next
  case (false w)
  let ?w1 = "sleep b 100 (snd (await_sample (sample (polls w)) w))"
  from false have run: "poll_loop b sample T s ?w1 = (c, w')"
    by (simp add: poll_loop_false)
  have p1: "polls ?w1 = Suc (polls w)"
    and c1: "clock w + 100 \<le> clock ?w1"
    by (simp_all add: sleep_def await_sample_def)
  from poll_loop_frame [OF run] have mono: "Suc (polls w) \<le> polls w'"
    by (simp add: p1)
  then have n: "int (polls w' - polls w) = int (polls w' - Suc (polls w)) + 1"
    by simp
  from false.IH [OF run] c1 show ?case
    by (simp add: p1 n algebra_simps)
qed

lemma poll_loop_never_true:
  assumes never: "\<forall>i. snd (sample i) \<noteq> Returns True"
  shows "poll_loop b sample T s w = (c, w') \<Longrightarrow> c \<noteq> Return v"
  using poll_loop_last_sample [of b sample T s w c w'] never
  by (auto split: completion.splits)

lemma getLocator_frame:
  "getLocator input opts w = (l, w1) \<Longrightarrow>
     clock w1 = clock w \<and> polls w1 = polls w \<and> console w1 = console w
     \<and> testInfo w1 = testInfo w \<and> current_page w1 = current_page w"
  by (cases input) (auto simp: getLocator_def page_locator_def)

lemma isElementVisible_loop:
  "isElementVisible tc b input options w =
     after_catch ''isElementVisible- ''
       (poll_loop b (locator_isVisible b (fst (getLocator input None w)) options)
          (or_default (opt_timeout options) (SMALL_TIMEOUT tc)) (clock w)
          (snd (getLocator input None w)))"
proof -
  obtain l w1 where l: "getLocator input None w = (l, w1)"
    by (cases "getLocator input None w")
  with getLocator_frame [OF l] show ?thesis
    by (simp add: isElementVisible_def after_catch_def Date_now_def)
qed

lemma isElementHidden_loop:
  "isElementHidden tc b input options w =
     after_catch ''isElementHidden- ''
       (poll_loop b (locator_isHidden b (fst (getLocator input None w)) options)
          (or_default (opt_timeout options) (SMALL_TIMEOUT tc)) (clock w)
          (snd (getLocator input None w)))"
proof -
  obtain l w1 where l: "getLocator input None w = (l, w1)"
    by (cases "getLocator input None w")
  with getLocator_frame [OF l] show ?thesis
    by (simp add: isElementHidden_def after_catch_def Date_now_def)
qed

lemma poller_catches:
  assumes run: "after_catch name (poll_loop b sample T s w1) = (r, w')"
  shows "(\<exists>v. r = Returns v)
     \<and> (\<forall>i e. polls w1 \<le> i \<and> i < polls w' \<and> snd (sample i) = Throws e \<longrightarrow>
           r = Returns False
           \<and> w' = w1\<lparr>clock := clock w1 + (\<Sum>k = polls w1..<Suc i. int (fst (sample k)))
                             + (\<Sum>k = polls w1..<i. 100 + int (timer_late b (Suc k))),
                         polls := Suc i,
                         console := console w1 @ [name @ error_text e]\<rparr>
           \<and> clock w' - int (fst (sample i)) - s < T)
     \<and> ((\<forall>i. polls w1 \<le> i \<and> i < polls w' \<longrightarrow> (\<forall>e. snd (sample i) \<noteq> Throws e)) \<longrightarrow>
           console w' = console w1)"
proof -
  obtain c w2 where loop: "poll_loop b sample T s w1 = (c, w2)"
    by (cases "poll_loop b sample T s w1")
  note frame = poll_loop_frame [OF loop]
  note last = poll_loop_last_sample [OF loop]
  have polls: "polls w' = polls w2"
    using run loop by (auto simp: after_catch_def console_log_def split: completion.splits)
  have r: "\<exists>v. r = Returns v"
    using run loop by (auto simp: after_catch_def split: completion.splits)
  have thrown: "r = Returns False
      \<and> w' = w1\<lparr>clock := clock w1 + (\<Sum>k = polls w1..<Suc i. int (fst (sample k)))
                        + (\<Sum>k = polls w1..<i. 100 + int (timer_late b (Suc k))),
                    polls := Suc i,
                    console := console w1 @ [name @ error_text e]\<rparr>
      \<and> clock w' - int (fst (sample i)) - s < T"
    if i: "polls w1 \<le> i" "i < polls w'" "snd (sample i) = Throws e" for i e
  proof -
    from poll_loop_throw_is_last [OF loop i(1) _ i(3)] i(2) polls
    have c: "c = Throw e" "polls w2 = Suc i" by simp_all
    from poll_loop_throw_time [of b sample T s w1 e w2] loop c
    have within: "clock w2 - int (fst (sample i)) - s < T" by simp
    from poll_loop_clock [OF loop] c
    have time: "clock w2 = clock w1 + (\<Sum>k = polls w1..<Suc i. int (fst (sample k)))
        + (\<Sum>k = polls w1..<i. 100 + int (timer_late b (Suc k)))"
      by simp
    from poll_loop_world [OF loop] c
    have w2: "w2 = w1\<lparr>clock := clock w2, polls := Suc i\<rparr>" by simp
    from run loop c have r: "r = Returns False"
      and w': "w' = console_log (name @ error_text e) w2"
      by (simp_all add: after_catch_def)
    have "w' = w1\<lparr>clock := clock w2, polls := Suc i,
        console := console w1 @ [name @ error_text e]\<rparr>"
      unfolding w' by (subst w2) (simp add: console_log_def)
    with r within time w' show ?thesis
      by (simp add: console_log_def)
  qed
  have quiet: "console w' = console w1"
    if none: "\<forall>i. polls w1 \<le> i \<and> i < polls w' \<longrightarrow> (\<forall>e. snd (sample i) \<noteq> Throws e)"
  proof (cases c)
    case (Throw e)
    with last have "polls w1 \<le> polls w2 - 1" "polls w2 - 1 < polls w2"
      "snd (sample (polls w2 - 1)) = Throws e"
      by auto
    with none polls show ?thesis by auto
  next
    case Normal
    with run loop frame show ?thesis by (auto simp: after_catch_def)
  next
    case (Return v)
    with run loop frame show ?thesis by (auto simp: after_catch_def)
  qed
  from r thrown quiet show ?thesis by blast
qed

lemma poll_loop_timer_only:
  assumes same: "timer_late b' = timer_late b"
  shows "poll_loop b' sample T s w = poll_loop b sample T s w"
proof (induction w rule: poll_loop_rounds [where b = b and sample = sample and T = T and s = s])
  case (expired w)
  then show ?case by (simp add: poll_loop_expired)
next
  case (throws w e)
  then show ?case by (simp add: poll_loop_throws)
next
  case (true w)
  then show ?case by (simp add: poll_loop_true)
next
  case (false w)
  then show ?case by (simp add: poll_loop_false sleep_def same)
qed

lemma isElementVisible_ignores_isChecked:
  "isElementVisible tc (b\<lparr>locator_isChecked := f\<rparr>) input options w
     = isElementVisible tc b input options w"
  by (simp add: isElementVisible_loop poll_loop_timer_only [of "b\<lparr>locator_isChecked := f\<rparr>" b])

section \<open>Runs of the pollers on the concrete browsers\<close>

lemmas example_defs =
  std_timeouts_def start_world_def still_browser_def flaky_browser_def flaky_sample_def
  patient_browser_def patient_sample_def fresh_test_def

lemma flaky_visible_run:
  "isElementVisible std_timeouts flaky_browser (Selector ''#cart'') None start_world
     = (Returns False,
        start_world\<lparr>next_ref := 1, clock := 5, polls := 1,
                      console := [''isElementVisible- strict mode violation'']\<rparr>)"
  by (simp add: isElementVisible_def getLocator_def page_locator_def getPage_def or_default_def
      opt_timeout_def Date_now_def poll_loop.simps await_sample_def sleep_def console_log_def
      example_defs)

lemma flaky_hidden_run:
  "isElementHidden std_timeouts flaky_browser (Selector ''#cart'') None start_world
     = (Returns False,
        start_world\<lparr>next_ref := 1, clock := 5, polls := 1,
                      console := [''isElementHidden- strict mode violation'']\<rparr>)"
  by (simp add: isElementHidden_def getLocator_def page_locator_def getPage_def or_default_def
      opt_timeout_def Date_now_def poll_loop.simps await_sample_def sleep_def console_log_def
      example_defs)

lemma patient_visible_run:
  "isElementVisible std_timeouts patient_browser (Selector ''#cart'') None start_world
     = (Returns True, start_world\<lparr>next_ref := 1, clock := 110, polls := 2\<rparr>)"
  by (simp add: isElementVisible_def getLocator_def page_locator_def getPage_def or_default_def
      opt_timeout_def Date_now_def poll_loop.simps await_sample_def sleep_def console_log_def
      example_defs)

lemma still_visible_run:
  "isElementVisible std_timeouts still_browser (Selector ''#cart'') (Some \<lparr>timeout = Some 300\<rparr>)
       start_world
     = (Returns False, start_world\<lparr>next_ref := 1, clock := 300, polls := 3\<rparr>)"
  by (simp add: isElementVisible_def getLocator_def page_locator_def getPage_def or_default_def
      opt_timeout_def Date_now_def poll_loop.simps await_sample_def sleep_def console_log_def
      example_defs)

lemma start_world_fields:
  "clock start_world = 0" "polls start_world = 0" "console start_world = []"
  "next_ref start_world = 0" "current_page start_world = 1" "testInfo start_world = fresh_test"
  by (simp_all add: start_world_def)

lemma std_timeouts_fields:
  "INSTANT_TIMEOUT std_timeouts = 1000" "SMALL_TIMEOUT std_timeouts = 5000"
  "STANDARD_TIMEOUT std_timeouts = 15000"
  by (simp_all add: std_timeouts_def)

lemma cart_locator:
  "getLocator (Selector ''#cart'') None start_world
     = (\<lparr>ref = 0, of_page = 1, selector = ''#cart'', locator_options = None, picks = []\<rparr>,
        start_world\<lparr>next_ref := 1\<rparr>)"
  by (simp add: getLocator_def page_locator_def getPage_def start_world_def)

section \<open>Properties of the pollers\<close>

text \<open>
  C1 (as amended): isElementVisible and isElementHidden never throw, for every state
  sample and every timeout. An exception raised by a sample is caught and logged
  once on the console, and it ends the polling: the function returns false, the
  sample that threw is the last one taken and was issued before the budget had run
  out, and the function returns at the moment that sample settles, without waiting
  for the rest of the budget. The world at the return is given exactly: the time that
  has passed is the duration of the samples taken and the sleeps between them, with
  nothing after the last sample, and the only other changes are the count of the
  samples and the one line on the console.
\<close>

theorem pollers_catch_and_stop:
  assumes vis: "isElementVisible tc b input options w = (rv, wv)"
    and hid: "isElementHidden tc b input options w = (rh, wh)"
    and l: "getLocator input None w = (l, w1)"
  shows "(\<exists>v. rv = Returns v) \<and> (\<exists>v. rh = Returns v)
     \<and> (\<forall>i e. polls w \<le> i \<and> i < polls wv \<and> snd (locator_isVisible b l options i) = Throws e
           \<longrightarrow> rv = Returns False
               \<and> wv = w1\<lparr>clock := clock w
                               + (\<Sum>k = polls w..<Suc i. int (fst (locator_isVisible b l options k)))
                               + (\<Sum>k = polls w..<i. 100 + int (timer_late b (Suc k))),
                             polls := Suc i,
                             console := console w @ [''isElementVisible- '' @ error_text e]\<rparr>
               \<and> clock wv - int (fst (locator_isVisible b l options i)) - clock w
                     < or_default (opt_timeout options) (SMALL_TIMEOUT tc))
     \<and> (\<forall>i e. polls w \<le> i \<and> i < polls wh \<and> snd (locator_isHidden b l options i) = Throws e
           \<longrightarrow> rh = Returns False
               \<and> wh = w1\<lparr>clock := clock w
                               + (\<Sum>k = polls w..<Suc i. int (fst (locator_isHidden b l options k)))
                               + (\<Sum>k = polls w..<i. 100 + int (timer_late b (Suc k))),
                             polls := Suc i,
                             console := console w @ [''isElementHidden- '' @ error_text e]\<rparr>
               \<and> clock wh - int (fst (locator_isHidden b l options i)) - clock w
                     < or_default (opt_timeout options) (SMALL_TIMEOUT tc))"
proof -
  note f = getLocator_frame [OF l]
  from vis l have "after_catch ''isElementVisible- ''
      (poll_loop b (locator_isVisible b l options)
         (or_default (opt_timeout options) (SMALL_TIMEOUT tc)) (clock w) w1) = (rv, wv)"
    by (simp add: isElementVisible_loop)
  note v = poller_catches [OF this]
  from hid l have "after_catch ''isElementHidden- ''
      (poll_loop b (locator_isHidden b l options)
         (or_default (opt_timeout options) (SMALL_TIMEOUT tc)) (clock w) w1) = (rh, wh)"
    by (simp add: isElementHidden_loop)
  note h = poller_catches [OF this]
  from v h f show ?thesis by simp
qed

theorem pollers_catch_and_stop_witness:
  "isElementVisible std_timeouts flaky_browser (Selector ''#cart'') None start_world
     = (Returns False,
        start_world\<lparr>next_ref := 1, clock := 5, polls := 1,
                      console := [''isElementVisible- strict mode violation'']\<rparr>)
   \<and> isElementHidden std_timeouts flaky_browser (Selector ''#cart'') None start_world
     = (Returns False,
        start_world\<lparr>next_ref := 1, clock := 5, polls := 1,
                      console := [''isElementHidden- strict mode violation'']\<rparr>)"
proof -
  obtain rv wv where v: "isElementVisible std_timeouts flaky_browser (Selector ''#cart'') None
      start_world = (rv, wv)"
    by (cases "isElementVisible std_timeouts flaky_browser (Selector ''#cart'') None start_world")
  obtain rh wh where h: "isElementHidden std_timeouts flaky_browser (Selector ''#cart'') None
      start_world = (rh, wh)"
    by (cases "isElementHidden std_timeouts flaky_browser (Selector ''#cart'') None start_world")
  note t = pollers_catch_and_stop [OF v h cart_locator]
  have taken: "0 < polls wv" "0 < polls wh"
    using v h by (auto simp: flaky_visible_run flaky_hidden_run)
  have thrown: "snd (locator_isVisible flaky_browser l opts 0)
      = Throws (Error ''strict mode violation'')"
    "snd (locator_isHidden flaky_browser l opts 0) = Throws (Error ''strict mode violation'')"
    "fst (locator_isVisible flaky_browser l opts 0) = 5"
    "fst (locator_isHidden flaky_browser l opts 0) = 5" for l opts
    by (simp_all add: flaky_browser_def flaky_sample_def)
  from t have "polls start_world \<le> 0 \<and> 0 < polls wv
        \<and> snd (locator_isVisible flaky_browser
              \<lparr>ref = 0, of_page = 1, selector = ''#cart'', locator_options = None, picks = []\<rparr>
              None 0) = Throws (Error ''strict mode violation'')
      \<longrightarrow> rv = Returns False
        \<and> wv = start_world\<lparr>next_ref := 1\<rparr>\<lparr>clock := clock start_world
               + (\<Sum>k = polls start_world..<Suc 0. int (fst (locator_isVisible flaky_browser
                   \<lparr>ref = 0, of_page = 1, selector = ''#cart'', locator_options = None,
                      picks = []\<rparr> None k)))
               + (\<Sum>k = polls start_world..<0. 100 + int (timer_late flaky_browser (Suc k))),
             polls := Suc 0,
             console := console start_world @ [''isElementVisible- ''
               @ error_text (Error ''strict mode violation'')]\<rparr>"
    by blast
  with taken thrown have vis: "rv = Returns False" "wv = start_world\<lparr>next_ref := 1, clock := 5,
      polls := 1, console := [''isElementVisible- strict mode violation'']\<rparr>"
    by (simp_all add: start_world_fields)
  from t have "polls start_world \<le> 0 \<and> 0 < polls wh
        \<and> snd (locator_isHidden flaky_browser
              \<lparr>ref = 0, of_page = 1, selector = ''#cart'', locator_options = None, picks = []\<rparr>
              None 0) = Throws (Error ''strict mode violation'')
      \<longrightarrow> rh = Returns False
        \<and> wh = start_world\<lparr>next_ref := 1\<rparr>\<lparr>clock := clock start_world
               + (\<Sum>k = polls start_world..<Suc 0. int (fst (locator_isHidden flaky_browser
                   \<lparr>ref = 0, of_page = 1, selector = ''#cart'', locator_options = None,
                      picks = []\<rparr> None k)))
               + (\<Sum>k = polls start_world..<0. 100 + int (timer_late flaky_browser (Suc k))),
             polls := Suc 0,
             console := console start_world @ [''isElementHidden- ''
               @ error_text (Error ''strict mode violation'')]\<rparr>"
    by blast
  with taken thrown have hid: "rh = Returns False" "wh = start_world\<lparr>next_ref := 1, clock := 5,
      polls := 1, console := [''isElementHidden- strict mode violation'']\<rparr>"
    by (simp_all add: start_world_fields)
  from v h vis hid show ?thesis by simp
qed

text \<open>
  The claim as stated fails: the first sample throws while the whole budget of 5000 ms
  is still ahead and the next sample would have been true; the poller returns false
  after that one sample. With a false sample in the place of the exception it goes on
  and returns true.
\<close>

theorem isElementVisible_stops_at_first_exception:
  "fst (isElementVisible std_timeouts flaky_browser (Selector ''#cart'') None start_world)
     = Returns False
   \<and> polls (snd (isElementVisible std_timeouts flaky_browser (Selector ''#cart'') None
        start_world)) = 1
   \<and> clock (snd (isElementVisible std_timeouts flaky_browser (Selector ''#cart'') None
        start_world)) - clock start_world < SMALL_TIMEOUT std_timeouts
   \<and> snd (flaky_sample 1) = Returns True
   \<and> fst (isElementVisible std_timeouts patient_browser (Selector ''#cart'') None start_world)
     = Returns True"
  by (simp add: flaky_visible_run patient_visible_run flaky_sample_def start_world_fields
      std_timeouts_fields)

lemma rounds_of_budget:
  "T \<le> 100 * n \<Longrightarrow> 100 * n < T + 100 \<Longrightarrow> n = (T + 99) div (100::int)"
proof -
  assume a: "T \<le> 100 * n" "100 * n < T + 100"
  have "(T + 99) div 100 = n"
    by (rule int_div_pos_eq [where r = "T + 99 - 100 * n"]) (use a in simp_all)
  then show ?thesis by simp
qed

lemma poller_samples:
  assumes run: "after_catch name (poll_loop b sample T s w1) = (r, w')"
    and start: "clock w1 = s"
  shows "0 < T \<Longrightarrow> polls w1 < polls w'"
    and "0 < T \<Longrightarrow> snd (sample (polls w1)) = Returns True \<Longrightarrow>
           r = Returns True \<and> polls w' = Suc (polls w1)
           \<and> clock w' = clock w1 + int (fst (sample (polls w1)))"
    and "(r = Returns True)
           = (polls w1 < polls w' \<and> snd (sample (polls w' - 1)) = Returns True)"
    and "polls w1 \<le> i \<Longrightarrow> Suc i < polls w' \<Longrightarrow> snd (sample i) = Returns False"
    and "\<forall>i. snd (sample i) \<noteq> Returns True \<Longrightarrow> r = Returns False"
    and "\<forall>i. snd (sample i) = Returns False \<Longrightarrow>
           r = Returns False \<and> T \<le> clock w' - clock w1
           \<and> 100 * int (polls w' - polls w1) \<le> clock w' - clock w1
           \<and> (polls w1 < polls w' \<longrightarrow> (int (polls w' - polls w1) - 1) * 100 < T)"
    and "\<forall>i. fst (sample i) + timer_late b (Suc i) \<le> d \<Longrightarrow>
           clock w' - clock w1 \<le> int (polls w' - polls w1) * (100 + int d)"
    and "r = Returns True \<Longrightarrow>
           w' = w1\<lparr>clock := clock w1 + (\<Sum>k = polls w1..<polls w'. int (fst (sample k)))
                             + (\<Sum>k = polls w1..<polls w' - 1.
                                  100 + int (timer_late b (Suc k))),
                       polls := polls w'\<rparr>"
    and "\<forall>i. snd (sample i) = Returns False \<Longrightarrow>
           w' = w1\<lparr>clock := clock w1 + (\<Sum>k = polls w1..<polls w'. int (fst (sample k)))
                             + (\<Sum>k = polls w1..<polls w'. 100 + int (timer_late b (Suc k))),
                       polls := polls w'\<rparr>"
    and "polls w1 < polls w' \<Longrightarrow>
           (\<Sum>k = polls w1..<polls w' - 1.
               int (fst (sample k)) + 100 + int (timer_late b (Suc k))) < T"
    and "T \<le> 0 \<Longrightarrow> r = Returns False \<and> w' = w1"
proof -
  obtain c w2 where loop: "poll_loop b sample T s w1 = (c, w2)"
    by (cases "poll_loop b sample T s w1")
  have w': "polls w' = polls w2" "clock w' = clock w2"
    and r: "r = Returns (c = Return True)"
    using run loop poll_loop_last_sample [OF loop]
    by (auto simp: after_catch_def console_log_def split: completion.splits)
  have live: "Date_now w1 - s < T" if "0 < T"
    using start that by (simp add: Date_now_def)
  note last = poll_loop_last_sample [OF loop]
  note time = poll_loop_clock [OF loop]
  note shape = poll_loop_world [OF loop]
  show "polls w1 < polls w'" if "0 < T"
    using poll_loop_samples_once_live [OF loop live [OF that]] w' by simp
  show "r = Returns True \<and> polls w' = Suc (polls w1)
           \<and> clock w' = clock w1 + int (fst (sample (polls w1)))"
    if "0 < T" "snd (sample (polls w1)) = Returns True"
    using loop poll_loop_true [where w = w1 and s = s and T = T and sample = sample and b = b,
        OF live [OF that(1)] that(2)] r w'
    by (auto simp: await_sample_def)
  show "(r = Returns True)
           = (polls w1 < polls w' \<and> snd (sample (polls w' - 1)) = Returns True)"
    using last r w' by (cases c) auto
  show "snd (sample i) = Returns False" if "polls w1 \<le> i" "Suc i < polls w'" for i
    using poll_loop_earlier_samples [OF loop that(1)] that(2) w' by simp
  show "r = Returns False" if "\<forall>i. snd (sample i) \<noteq> Returns True"
    using poll_loop_never_true [OF that loop] r by (cases c) auto
  show "r = Returns False \<and> T \<le> clock w' - clock w1
           \<and> 100 * int (polls w' - polls w1) \<le> clock w' - clock w1
           \<and> (polls w1 < polls w' \<longrightarrow> (int (polls w' - polls w1) - 1) * 100 < T)"
    if "\<forall>i. snd (sample i) = Returns False"
  proof -
    from poll_loop_all_false [OF that loop]
    have c: "c = Normal" and slow: "100 * int (polls w2 - polls w1) \<le> clock w2 - clock w1"
      by simp_all
    from last c have "T \<le> clock w2 - s" by simp
    moreover from poll_loop_count_upper [OF loop] w' start
    have "polls w1 < polls w' \<longrightarrow> (int (polls w2 - polls w1) - 1) * 100 < T" by simp
    ultimately show ?thesis using c r slow w' start by simp
  qed
  show "clock w' - clock w1 \<le> int (polls w' - polls w1) * (100 + int d)"
    if "\<forall>i. fst (sample i) + timer_late b (Suc i) \<le> d"
    using poll_loop_elapsed_upper [OF that loop] w' by simp
  show "w' = w1\<lparr>clock := clock w1 + (\<Sum>k = polls w1..<polls w'. int (fst (sample k)))
                             + (\<Sum>k = polls w1..<polls w' - 1.
                                  100 + int (timer_late b (Suc k))),
                       polls := polls w'\<rparr>"
    if "r = Returns True"
  proof -
    from that r have c: "c = Return True" by simp
    with run loop have "w' = w2" by (simp add: after_catch_def)
    with shape time c show ?thesis by simp
  qed
  show "w' = w1\<lparr>clock := clock w1 + (\<Sum>k = polls w1..<polls w'. int (fst (sample k)))
                             + (\<Sum>k = polls w1..<polls w'. 100 + int (timer_late b (Suc k))),
                       polls := polls w'\<rparr>"
    if "\<forall>i. snd (sample i) = Returns False"
  proof -
    from poll_loop_all_false [OF that loop] have c: "c = Normal" by simp
    with run loop have "w' = w2" by (simp add: after_catch_def)
    with shape time c show ?thesis by simp
  qed
  show "(\<Sum>k = polls w1..<polls w' - 1.
               int (fst (sample k)) + 100 + int (timer_late b (Suc k))) < T"
    if "polls w1 < polls w'"
    using poll_loop_last_issue [OF loop] that w' start by simp
  show "r = Returns False \<and> w' = w1" if "T \<le> 0"
  proof -
    from that start have "\<not> Date_now w1 - s < T" by (simp add: Date_now_def)
    from poll_loop_expired [OF this, of b sample] run show ?thesis
      by (simp add: after_catch_def)
  qed
qed

text \<open>
  C2 (as amended): for every positive timeout budget (the override, or the default when
  the override is omitted or 0), isElementVisible takes its first sample at once; if
  that sample is true it returns true without sleeping. It returns true exactly when
  it has taken a sample that is true, and that sample is the last one it takes; every
  earlier sample it has taken was false. For a predicate that never returns true it
  returns false, never true. For a predicate whose samples are all false it sleeps 100
  ms (and the timer's lateness) after every sample, issues no sample once the elapsed
  time has reached the budget, and returns false with the elapsed time at or beyond
  the budget. The time that has passed at the return is given exactly: the durations
  of the samples taken and a sleep after each of them (after each but the last when
  the result is true); the last sample was issued before the budget had run out. So
  the number of samples depends on how long the samples take: when a round costs less
  than 50 ms beyond its 100 ms sleep, a budget of 300 ms gives 3 samples; when the
  samples are instantaneous and the timer is exact, the samples are exactly 100 ms
  apart and their number is the budget divided by 100, rounded up. With a budget
  that is not positive no sample is taken and the result is false.
\<close>

theorem isElementVisible_samples_until_budget:
  assumes run: "isElementVisible tc b input options w = (r, w')"
    and l: "getLocator input None w = (l, w1)"
    and T: "T = or_default (opt_timeout options) (SMALL_TIMEOUT tc)"
  shows "(0 < T \<longrightarrow> polls w < polls w')
    \<and> (0 < T \<and> snd (locator_isVisible b l options (polls w)) = Returns True \<longrightarrow>
         r = Returns True \<and> polls w' = Suc (polls w)
         \<and> clock w' = clock w + int (fst (locator_isVisible b l options (polls w))))
    \<and> (r = Returns True)
         = (polls w < polls w'
            \<and> snd (locator_isVisible b l options (polls w' - 1)) = Returns True)
    \<and> (\<forall>i. polls w \<le> i \<and> Suc i < polls w' \<longrightarrow>
          snd (locator_isVisible b l options i) = Returns False)
    \<and> ((\<forall>i. snd (locator_isVisible b l options i) \<noteq> Returns True) \<longrightarrow> r = Returns False)
    \<and> ((\<forall>i. snd (locator_isVisible b l options i) = Returns False) \<longrightarrow>
          r = Returns False \<and> T \<le> clock w' - clock w
          \<and> 100 * int (polls w' - polls w) \<le> clock w' - clock w
          \<and> (polls w < polls w' \<longrightarrow> (int (polls w' - polls w) - 1) * 100 < T))
    \<and> ((\<forall>i. snd (locator_isVisible b l options i) = Returns False)
         \<and> (\<forall>i. fst (locator_isVisible b l options i) + timer_late b (Suc i) < 50)
         \<and> T = 300 \<longrightarrow> polls w' - polls w = 3)
    \<and> ((\<forall>i. locator_isVisible b l options i = (0, Returns False)) \<and> (\<forall>i. timer_late b i = 0)
         \<and> 0 < T
         \<longrightarrow> int (polls w' - polls w) = (T + 99) div 100
             \<and> clock w' - clock w = 100 * int (polls w' - polls w))
    \<and> (r = Returns True \<longrightarrow>
          w' = w1\<lparr>clock := clock w
                      + (\<Sum>k = polls w..<polls w'. int (fst (locator_isVisible b l options k)))
                      + (\<Sum>k = polls w..<polls w' - 1. 100 + int (timer_late b (Suc k))),
                    polls := polls w'\<rparr>)
    \<and> ((\<forall>i. snd (locator_isVisible b l options i) = Returns False) \<longrightarrow>
          w' = w1\<lparr>clock := clock w
                      + (\<Sum>k = polls w..<polls w'. int (fst (locator_isVisible b l options k)))
                      + (\<Sum>k = polls w..<polls w'. 100 + int (timer_late b (Suc k))),
                    polls := polls w'\<rparr>)
    \<and> (polls w < polls w' \<longrightarrow>
          (\<Sum>k = polls w..<polls w' - 1.
              int (fst (locator_isVisible b l options k)) + 100 + int (timer_late b (Suc k)))
          < T)
    \<and> (T \<le> 0 \<longrightarrow> r = Returns False \<and> w' = w1)"
proof -
  let ?sample = "locator_isVisible b l options"
  note f = getLocator_frame [OF l]
  from run l have loop: "after_catch ''isElementVisible- ''
      (poll_loop b ?sample T (clock w) w1) = (r, w')"
    unfolding T by (simp add: isElementVisible_loop)
  from f have start: "clock w1 = clock w" by simp
  note p = poller_samples [OF loop start]
  have three: "polls w' - polls w = 3"
    if false: "\<forall>i. snd (?sample i) = Returns False"
      and fast: "\<forall>i. fst (?sample i) + timer_late b (Suc i) < 50" and T300: "T = 300"
  proof -
    have "fst (?sample i) + timer_late b (Suc i) \<le> 49" for i
      using spec [OF fast, of i] by linarith
    then have "\<forall>i. fst (?sample i) + timer_late b (Suc i) \<le> 49" ..
    from p(7) [OF this] have up: "clock w' - clock w1 \<le> int (polls w' - polls w1) * 149"
      by simp
    from p(1) T300 have some: "polls w1 < polls w'" by simp
    from p(6) [OF false] T300 some have "300 \<le> clock w' - clock w1"
      and "(int (polls w' - polls w1) - 1) * 100 < 300" by simp_all
    with up f have "300 \<le> int (polls w' - polls w) * 149"
      and "int (polls w' - polls w) * 100 < 400" by simp_all
    then show ?thesis by linarith
  qed
  have exact: "int (polls w' - polls w) = (T + 99) div 100
             \<and> clock w' - clock w = 100 * int (polls w' - polls w)"
    if ideal: "\<forall>i. ?sample i = (0, Returns False)" and timer: "\<forall>i. timer_late b i = 0"
      and pos: "0 < T"
  proof -
    from ideal timer have "\<forall>i. fst (?sample i) + timer_late b (Suc i) \<le> 0" by simp
    from p(7) [OF this] have up: "clock w' - clock w1 \<le> int (polls w' - polls w1) * 100"
      by simp
    from ideal have "\<forall>i. snd (?sample i) = Returns False" by simp
    from p(6) [OF this] p(1) [OF pos] up f
    have eq: "clock w' - clock w = 100 * int (polls w' - polls w)"
      and "T \<le> 100 * int (polls w' - polls w)"
      and "100 * int (polls w' - polls w) < T + 100"
      by simp_all
    with rounds_of_budget [of T "int (polls w' - polls w)"] show ?thesis by simp
  qed
  have c1: "0 < T \<longrightarrow> polls w < polls w'"
    using p(1) f by simp
  have c2: "0 < T \<and> snd (?sample (polls w)) = Returns True \<longrightarrow>
         r = Returns True \<and> polls w' = Suc (polls w)
         \<and> clock w' = clock w + int (fst (?sample (polls w)))"
    using p(2) f by simp
  have c3: "(r = Returns True)
         = (polls w < polls w' \<and> snd (?sample (polls w' - 1)) = Returns True)"
    using p(3) f by simp
  have c4: "\<forall>i. polls w \<le> i \<and> Suc i < polls w' \<longrightarrow> snd (?sample i) = Returns False"
    using p(4) f by simp
  have c5: "(\<forall>i. snd (?sample i) \<noteq> Returns True) \<longrightarrow> r = Returns False"
    using p(5) by simp
  have c6: "(\<forall>i. snd (?sample i) = Returns False) \<longrightarrow>
          r = Returns False \<and> T \<le> clock w' - clock w
          \<and> 100 * int (polls w' - polls w) \<le> clock w' - clock w
          \<and> (polls w < polls w' \<longrightarrow> (int (polls w' - polls w) - 1) * 100 < T)"
    using p(6) f by simp
  have c7: "(\<forall>i. snd (?sample i) = Returns False)
         \<and> (\<forall>i. fst (?sample i) + timer_late b (Suc i) < 50)
         \<and> T = 300 \<longrightarrow> polls w' - polls w = 3"
    using three by blast
  have c8: "(\<forall>i. ?sample i = (0, Returns False)) \<and> (\<forall>i. timer_late b i = 0) \<and> 0 < T
         \<longrightarrow> int (polls w' - polls w) = (T + 99) div 100
             \<and> clock w' - clock w = 100 * int (polls w' - polls w)"
    using exact by blast
  have c9: "r = Returns True \<longrightarrow>
          w' = w1\<lparr>clock := clock w + (\<Sum>k = polls w..<polls w'. int (fst (?sample k)))
                      + (\<Sum>k = polls w..<polls w' - 1. 100 + int (timer_late b (Suc k))),
                    polls := polls w'\<rparr>"
    using p(8) f by simp
  have c10: "(\<forall>i. snd (?sample i) = Returns False) \<longrightarrow>
          w' = w1\<lparr>clock := clock w + (\<Sum>k = polls w..<polls w'. int (fst (?sample k)))
                      + (\<Sum>k = polls w..<polls w'. 100 + int (timer_late b (Suc k))),
                    polls := polls w'\<rparr>"
    using p(9) f by simp
  have c11: "polls w < polls w' \<longrightarrow>
          (\<Sum>k = polls w..<polls w' - 1.
              int (fst (?sample k)) + 100 + int (timer_late b (Suc k))) < T"
    using p(10) f by simp
  have c12: "T \<le> 0 \<longrightarrow> r = Returns False \<and> w' = w1"
    using p(11) by simp
  from c1 c2 c3 c4 c5 c6 c7 c8 c9 c10 c11 c12 show ?thesis
    by (intro conjI)
qed

theorem isElementVisible_samples_until_budget_witness:
  "fst (isElementVisible std_timeouts still_browser (Selector ''#cart'')
          (Some \<lparr>timeout = Some 300\<rparr>) start_world) = Returns False
   \<and> polls (snd (isElementVisible std_timeouts still_browser (Selector ''#cart'')
          (Some \<lparr>timeout = Some 300\<rparr>) start_world)) - polls start_world = 3
   \<and> clock (snd (isElementVisible std_timeouts still_browser (Selector ''#cart'')
          (Some \<lparr>timeout = Some 300\<rparr>) start_world)) - clock start_world = 300
   \<and> fst (isElementVisible std_timeouts patient_browser (Selector ''#cart'') None start_world)
       = Returns True
   \<and> polls (snd (isElementVisible std_timeouts patient_browser (Selector ''#cart'') None
          start_world)) = 2"
proof -
  let ?l = "\<lparr>ref = 0, of_page = 1, selector = ''#cart'', locator_options = None, picks = []\<rparr>"
  let ?o = "Some \<lparr>timeout = Some 300\<rparr>"
  let ?w' = "start_world\<lparr>next_ref := 1, clock := 300, polls := 3\<rparr>"
  have T: "300 = or_default (opt_timeout ?o) (SMALL_TIMEOUT std_timeouts)"
    by (simp add: or_default_def opt_timeout_def)
  note t = isElementVisible_samples_until_budget [OF still_visible_run cart_locator T]
  have never: "\<forall>i. snd (locator_isVisible still_browser ?l ?o i) = Returns False"
    and fast: "\<forall>i. fst (locator_isVisible still_browser ?l ?o i) + timer_late still_browser (Suc i) < 50"
    and ideal: "\<forall>i. locator_isVisible still_browser ?l ?o i = (0, Returns False)"
      "\<forall>i. timer_late still_browser i = 0"
    by (simp_all add: still_browser_def)
  from t never fast have three: "polls ?w' - polls start_world = 3" by blast
  from t ideal
  have apart: "clock ?w' - clock start_world = 100 * int (polls ?w' - polls start_world)"
    by simp
  have T5: "5000 = or_default (opt_timeout None) (SMALL_TIMEOUT std_timeouts)"
    by (simp add: or_default_def opt_timeout_def std_timeouts_fields)
  note u = isElementVisible_samples_until_budget [OF patient_visible_run cart_locator T5]
  from u have "polls start_world < polls (start_world\<lparr>next_ref := 1, clock := 110, polls := 2\<rparr>)"
    by simp
  with three apart show ?thesis
    by (simp add: still_visible_run patient_visible_run)
qed

lemma negative_budget_run:
  "isElementVisible std_timeouts still_browser (Selector ''#cart'')
       (Some \<lparr>timeout = Some (- 5)\<rparr>) start_world
     = (Returns False, start_world\<lparr>next_ref := 1\<rparr>)"
  by (simp add: isElementVisible_def getLocator_def page_locator_def getPage_def or_default_def
      opt_timeout_def Date_now_def poll_loop.simps example_defs)

lemma slow_visible_run:
  "isElementVisible std_timeouts slow_browser (Selector ''#cart'')
       (Some \<lparr>timeout = Some 300\<rparr>) start_world
     = (Returns False, start_world\<lparr>next_ref := 1, clock := 440, polls := 2\<rparr>)"
  by (simp add: isElementVisible_def getLocator_def page_locator_def getPage_def or_default_def
      opt_timeout_def Date_now_def poll_loop.simps await_sample_def sleep_def console_log_def
      slow_browser_def slow_sample_def example_defs)

text \<open>
  The claim as stated fails in two places. With the budget {timeout: -5} the loop test
  fails before any sample: no sample is taken, let alone at once. With a predicate
  that is never true and takes 120 ms for each sample, a budget of 300 ms gives 2
  samples, not 3: the third would be due after 440 ms.
\<close>

theorem isElementVisible_fewer_samples:
  "polls (snd (isElementVisible std_timeouts still_browser (Selector ''#cart'')
          (Some \<lparr>timeout = Some (- 5)\<rparr>) start_world)) - polls start_world = 0
   \<and> snd (slow_sample 0) = Returns False \<and> snd (slow_sample 1) = Returns False
   \<and> fst (isElementVisible std_timeouts slow_browser (Selector ''#cart'')
          (Some \<lparr>timeout = Some 300\<rparr>) start_world) = Returns False
   \<and> polls (snd (isElementVisible std_timeouts slow_browser (Selector ''#cart'')
          (Some \<lparr>timeout = Some 300\<rparr>) start_world)) - polls start_world = 2
   \<and> clock (snd (isElementVisible std_timeouts slow_browser (Selector ''#cart'')
          (Some \<lparr>timeout = Some 300\<rparr>) start_world)) - clock start_world = 440"
  by (simp add: negative_budget_run slow_visible_run slow_sample_def start_world_fields)

text \<open>
  C9: when isElementVisible returns false (the element did not become visible within
  the budget, or a sample threw), isElementChecked returns false whatever the checked
  state of the element is, and leaves the world as the visibility poll left it: the
  checked state is not read.
\<close>

theorem isElementChecked_false_unless_visible:
  assumes hidden: "fst (isElementVisible tc b input options w) = Returns False"
  shows "isElementChecked tc (b\<lparr>locator_isChecked := checked\<rparr>) input options w
           = (Returns False, snd (isElementVisible tc b input options w))"
  using hidden
  by (cases "isElementVisible tc b input options w")
     (simp add: isElementChecked_def isElementVisible_ignores_isChecked)

theorem isElementChecked_false_unless_visible_witness:
  "isElementChecked std_timeouts (still_browser\<lparr>locator_isChecked := checked_box\<rparr>)
       (Selector ''#cart'') (Some \<lparr>timeout = Some 300\<rparr>) start_world
     = (Returns False, start_world\<lparr>next_ref := 1, clock := 300, polls := 3\<rparr>)
   \<and> snd (locator_isChecked (still_browser\<lparr>locator_isChecked := checked_box\<rparr>)
          (fst (getLocator (Selector ''#cart'') None start_world))
          (Some \<lparr>timeout = Some 300\<rparr>)) = Returns True"
  using isElementChecked_false_unless_visible [of std_timeouts still_browser
      "Selector ''#cart''" "Some \<lparr>timeout = Some 300\<rparr>" start_world checked_box]
  by (simp add: still_visible_run checked_box_def)

section \<open>Properties of the per-call timeout and of navigation\<close>

lemma buy_locator:
  "getLocator (Selector ''#buy'') None start_world
     = (\<lparr>ref = 0, of_page = 1, selector = ''#buy'', locator_options = None, picks = []\<rparr>,
        start_world\<lparr>next_ref := 1\<rparr>)"
  by (simp add: getLocator_def page_locator_def getPage_def start_world_def)

text \<open>
  C3: for every element query and timeout override, when the click of clickAndNavigate
  is performed and the wait for the next navigation event, with the override as its
  timeout (the standard timeout when no override is given), ends in a timeout error,
  clickAndNavigate throws that timeout error to its caller; the list of soft-assertion
  errors of the test and the console are as they were before the call.
\<close>

theorem clickAndNavigate_navigation_timeout_propagates:
  assumes l: "getLocator input None w = (l, w1)"
    and clicked: "locator_click b l options = (t1, Returns ())"
    and no_navigation:
      "page_waitForEvent b (getPage w) ''framenavigated''
         (or_default (opt_timeout options) (STANDARD_TIMEOUT tc)) = (t2, Throws (TimeoutError m))"
  shows "fst (clickAndNavigate tc b input options w) = Throws (TimeoutError m)
    \<and> testInfo (snd (clickAndNavigate tc b input options w)) = testInfo w
    \<and> console (snd (clickAndNavigate tc b input options w)) = console w
    \<and> clock (snd (clickAndNavigate tc b input options w)) = clock w + int t2
    \<and> or_default (opt_timeout (None :: ClickOptions option)) (STANDARD_TIMEOUT tc)
        = STANDARD_TIMEOUT tc"
proof -
  note f = getLocator_frame [OF l]
  from f have page: "getPage w1 = getPage w" by (simp add: getPage_def)
  show ?thesis
    using l clicked no_navigation f
    by (simp add: clickAndNavigate_def click_def page await_def or_default_def opt_timeout_def)
qed

theorem clickAndNavigate_navigation_timeout_propagates_witness:
  "fst (clickAndNavigate std_timeouts still_browser (Selector ''#buy'')
          (Some \<lparr>timeout = Some 2000, loadState = None\<rparr>) start_world)
     = Throws (TimeoutError ''page.waitForEvent: Timeout exceeded'')
   \<and> testInfo (snd (clickAndNavigate std_timeouts still_browser (Selector ''#buy'')
          (Some \<lparr>timeout = Some 2000, loadState = None\<rparr>) start_world)) = fresh_test
   \<and> clock (snd (clickAndNavigate std_timeouts still_browser (Selector ''#buy'')
          (Some \<lparr>timeout = Some 2000, loadState = None\<rparr>) start_world)) = 2000"
proof -
  have clicked: "locator_click still_browser
      \<lparr>ref = 0, of_page = 1, selector = ''#buy'', locator_options = None, picks = []\<rparr>
      (Some \<lparr>timeout = Some 2000, loadState = None\<rparr>) = (0, Returns ())"
    by (simp add: still_browser_def)
  have no_navigation: "page_waitForEvent still_browser (getPage start_world) ''framenavigated''
      (or_default (opt_timeout (Some \<lparr>timeout = Some 2000, loadState = None\<rparr>))
         (STANDARD_TIMEOUT std_timeouts))
      = (2000, Throws (TimeoutError ''page.waitForEvent: Timeout exceeded''))"
    by (simp add: still_browser_def or_default_def opt_timeout_def)
  from clickAndNavigate_navigation_timeout_propagates [OF buy_locator clicked no_navigation]
  show ?thesis by (simp add: start_world_fields)
qed

lemma isElementVisible_cong_sample:
  assumes "\<forall>l i. locator_isVisible b l o1 i = locator_isVisible b l o2 i"
    and "opt_timeout o1 = opt_timeout o2 \<or> or_default (opt_timeout o1) (SMALL_TIMEOUT tc)
          = or_default (opt_timeout o2) (SMALL_TIMEOUT tc)"
  shows "isElementVisible tc b input o1 w = isElementVisible tc b input o2 w"
proof -
  from assms(1) have "locator_isVisible b l o1 = locator_isVisible b l o2" for l
    by (simp add: fun_eq_iff)
  moreover from assms(2) have "or_default (opt_timeout o1) (SMALL_TIMEOUT tc)
          = or_default (opt_timeout o2) (SMALL_TIMEOUT tc)" by auto
  ultimately show ?thesis by (simp add: isElementVisible_loop)
qed

text \<open>
  C10 (as amended): an explicit timeout override of 0 is replaced by the operation's
  default budget in isElementAttached, getLocatorCount, isElementVisible and
  clickAndNavigate. For isElementAttached and getLocatorCount the call with
  {timeout: 0} equals the call with the options omitted. isElementVisible and
  clickAndNavigate also hand the options they were given on to the browser library
  (to isVisible and to click): their call with {timeout: 0} equals the call with the
  options omitted whenever that library call does not tell {timeout: 0} from omitted
  options.
\<close>

theorem zero_timeout_takes_default_budget:
  "isElementAttached tc b input (Some \<lparr>timeout = Some 0\<rparr>) w = isElementAttached tc b input None w
   \<and> getLocatorCount tc b input (Some \<lparr>timeout = Some 0\<rparr>) w = getLocatorCount tc b input None w
   \<and> or_default (opt_timeout (Some \<lparr>timeout = Some 0\<rparr>)) d = d
   \<and> or_default (opt_timeout (Some \<lparr>timeout = Some 0, loadState = None\<rparr>)) d = d
   \<and> ((\<forall>l i. locator_isVisible b l (Some \<lparr>timeout = Some 0\<rparr>) i = locator_isVisible b l None i)
        \<longrightarrow> isElementVisible tc b input (Some \<lparr>timeout = Some 0\<rparr>) w
            = isElementVisible tc b input None w)
   \<and> ((\<forall>l. locator_click b l (Some \<lparr>timeout = Some 0, loadState = None\<rparr>) = locator_click b l None)
        \<longrightarrow> clickAndNavigate tc b input (Some \<lparr>timeout = Some 0, loadState = None\<rparr>) w
            = clickAndNavigate tc b input None w)"
proof -
  have a: "isElementAttached tc b input (Some \<lparr>timeout = Some 0\<rparr>) w
      = isElementAttached tc b input None w"
    by (simp add: isElementAttached_def or_default_def opt_timeout_def)
  have c: "getLocatorCount tc b input (Some \<lparr>timeout = Some 0\<rparr>) w
      = getLocatorCount tc b input None w"
    by (simp add: getLocatorCount_def or_default_def opt_timeout_def)
  have d: "or_default (opt_timeout (Some \<lparr>timeout = Some 0\<rparr>)) d = d"
    "or_default (opt_timeout (Some \<lparr>timeout = Some 0, loadState = None\<rparr>)) d = d"
    by (simp_all add: or_default_def opt_timeout_def)
  have v: "isElementVisible tc b input (Some \<lparr>timeout = Some 0\<rparr>) w
            = isElementVisible tc b input None w"
    if "\<forall>l i. locator_isVisible b l (Some \<lparr>timeout = Some 0\<rparr>) i = locator_isVisible b l None i"
    using that by (intro isElementVisible_cong_sample) (simp_all add: or_default_def opt_timeout_def)
  have n: "clickAndNavigate tc b input (Some \<lparr>timeout = Some 0, loadState = None\<rparr>) w
            = clickAndNavigate tc b input None w"
    if "\<forall>l. locator_click b l (Some \<lparr>timeout = Some 0, loadState = None\<rparr>) = locator_click b l None"
  proof -
    have ls: "opt_loadState (Some \<lparr>timeout = Some 0, loadState = None\<rparr>) = opt_loadState None"
      by (simp add: opt_loadState_def)
    have od: "or_default (opt_timeout (Some \<lparr>timeout = Some 0, loadState = None\<rparr>))
        (STANDARD_TIMEOUT tc) = or_default (opt_timeout (None :: ClickOptions option))
        (STANDARD_TIMEOUT tc)"
      by (simp add: or_default_def opt_timeout_def)
    from that show ?thesis
      unfolding clickAndNavigate_def click_def ls od by simp
  qed
  from a c d v n show ?thesis by blast
qed

theorem zero_timeout_takes_default_budget_witness:
  "isElementVisible std_timeouts still_browser (Selector ''#cart'') (Some \<lparr>timeout = Some 0\<rparr>)
       start_world
     = isElementVisible std_timeouts still_browser (Selector ''#cart'') None start_world
   \<and> clickAndNavigate std_timeouts still_browser (Selector ''#buy'')
       (Some \<lparr>timeout = Some 0, loadState = None\<rparr>) start_world
     = clickAndNavigate std_timeouts still_browser (Selector ''#buy'') None start_world"
proof -
  have v: "\<forall>l i. locator_isVisible still_browser l (Some \<lparr>timeout = Some 0\<rparr>) i
      = locator_isVisible still_browser l None i"
    and n: "\<forall>l. locator_click still_browser l (Some \<lparr>timeout = Some 0, loadState = None\<rparr>)
      = locator_click still_browser l None"
    by (simp_all add: still_browser_def)
  from zero_timeout_takes_default_budget [of std_timeouts still_browser "Selector ''#cart''"
      start_world _ ] v
  have "isElementVisible std_timeouts still_browser (Selector ''#cart'')
       (Some \<lparr>timeout = Some 0\<rparr>) start_world
     = isElementVisible std_timeouts still_browser (Selector ''#cart'') None start_world"
    by blast
  moreover
  from zero_timeout_takes_default_budget [of std_timeouts still_browser "Selector ''#buy''"
      start_world _ ] n
  have "clickAndNavigate std_timeouts still_browser (Selector ''#buy'')
       (Some \<lparr>timeout = Some 0, loadState = None\<rparr>) start_world
     = clickAndNavigate std_timeouts still_browser (Selector ''#buy'') None start_world"
    by blast
  ultimately show ?thesis by simp
qed

text \<open>
  The claim as stated fails for clickAndNavigate: the budget of the two waits is the
  standard timeout in both calls, but the click receives {timeout: 0} in one and no
  options in the other. With a click that needs 40 s, the call with {timeout: 0}
  returns and the call without options throws the click's timeout error.
\<close>

theorem clickAndNavigate_zero_timeout_reaches_click:
  "fst (clickAndNavigate std_timeouts waiting_browser (Selector ''#buy'')
          (Some \<lparr>timeout = Some 0, loadState = None\<rparr>) start_world) = Returns ()
   \<and> fst (clickAndNavigate std_timeouts waiting_browser (Selector ''#buy'') None start_world)
       = Throws (TimeoutError ''locator.click: Timeout 30000ms exceeded'')
   \<and> or_default (opt_timeout (Some \<lparr>timeout = Some 0, loadState = None\<rparr>))
        (STANDARD_TIMEOUT std_timeouts)
       = or_default (opt_timeout (None :: ClickOptions option)) (STANDARD_TIMEOUT std_timeouts)"
  by (simp add: clickAndNavigate_def click_def buy_locator getPage_def await_def
      waiting_browser_def still_browser_def impatient_click_def frame_event_def
      or_default_def opt_timeout_def opt_loadState_def or_loadState_def LOADSTATE_def
      start_world_fields)

end
